theory Spec2Isabelle
  imports Complex_Main "HOL-Library.Sublist" "HOL-Library.Log_Nat"
begin

section \<open>Strings\<close>

text \<open>
  A JavaScript string is a sequence of 16-bit code units. The strings of this
  development are those whose code units are below 256 (U+0000 to U+00FF), a \<open>char\<close>
  each. On them \<open>length\<close> is the number of code units, which is also what
  validator.js \<open>isLength\<close> counts; the white space of \<open>\s\<close> and of
  \<open>String.prototype.trim\<close> is the six ASCII white-space characters and the no-break
  space U+00A0; and lower case is that of the letters A to Z and of the capital
  letters U+00C0 to U+00DE but the multiplication sign U+00D7, each 32 places on.
\<close>

definition is_space :: "char \<Rightarrow> bool" where
  "is_space c =
     (c \<in> set [CHR '' '', CHR 0x09, CHR 0x0A, CHR 0x0B, CHR 0x0C, CHR 0x0D, CHR 0xA0])"

text \<open>
  \<open>trim\<close> of validator.js without a character set (\<open>/^\s+/\<close> on the left, then from
  the right while \<open>/\s/\<close> matches) and \<open>String.prototype.trim\<close> of the schema option
  \<open>trim: true\<close> remove the same characters.
\<close>

definition trim :: "string \<Rightarrow> string" where
  "trim s = rev (dropWhile is_space (rev (dropWhile is_space s)))"

definition capitals :: string where
  "capitals = ''ABCDEFGHIJKLMNOPQRSTUVWXYZ''
     @ [CHR 0xC0, CHR 0xC1, CHR 0xC2, CHR 0xC3, CHR 0xC4, CHR 0xC5, CHR 0xC6, CHR 0xC7,
        CHR 0xC8, CHR 0xC9, CHR 0xCA, CHR 0xCB, CHR 0xCC, CHR 0xCD, CHR 0xCE, CHR 0xCF,
        CHR 0xD0, CHR 0xD1, CHR 0xD2, CHR 0xD3, CHR 0xD4, CHR 0xD5, CHR 0xD6,
        CHR 0xD8, CHR 0xD9, CHR 0xDA, CHR 0xDB, CHR 0xDC, CHR 0xDD, CHR 0xDE]"

definition smalls :: string where
  "smalls = ''abcdefghijklmnopqrstuvwxyz''
     @ [CHR 0xE0, CHR 0xE1, CHR 0xE2, CHR 0xE3, CHR 0xE4, CHR 0xE5, CHR 0xE6, CHR 0xE7,
        CHR 0xE8, CHR 0xE9, CHR 0xEA, CHR 0xEB, CHR 0xEC, CHR 0xED, CHR 0xEE, CHR 0xEF,
        CHR 0xF0, CHR 0xF1, CHR 0xF2, CHR 0xF3, CHR 0xF4, CHR 0xF5, CHR 0xF6,
        CHR 0xF8, CHR 0xF9, CHR 0xFA, CHR 0xFB, CHR 0xFC, CHR 0xFD, CHR 0xFE]"

definition to_lower :: "char \<Rightarrow> char" where
  "to_lower c = (case map_of (zip capitals smalls) c of None \<Rightarrow> c | Some l \<Rightarrow> l)"

definition toLowerCase :: "string \<Rightarrow> string" where
  "toLowerCase s = map to_lower s"

text \<open>\<open>str.split(c)\<close> for a one-character separator: the result is never empty.\<close>

fun split_on :: "char \<Rightarrow> string \<Rightarrow> string list" where
  "split_on c [] = [[]]"
| "split_on c (x # xs) =
     (if x = c then [] # split_on c xs
      else (case split_on c xs of
              [] \<Rightarrow> [[x]]
            | p # ps \<Rightarrow> (x # p) # ps))"

text \<open>\<open>/a|b|.../.test(s)\<close> for a pattern that is an alternation of plain words.\<close>

definition test_words :: "string list \<Rightarrow> string \<Rightarrow> bool" where
  "test_words ws s = list_ex (\<lambda>w. sublist w s) ws"

text \<open>\<open>toString\<close> of express-validator: an absent field reads as the empty string.\<close>

definition str_of :: "string option \<Rightarrow> string" where
  "str_of v = (case v of None \<Rightarrow> [] | Some s \<Rightarrow> s)"

text \<open>Truthiness of an optional string: \<open>undefined\<close> and \<open>''\<close> are falsy.\<close>

definition truthy :: "string option \<Rightarrow> bool" where
  "truthy v = (case v of None \<Rightarrow> False | Some s \<Rightarrow> s \<noteq> [])"

subsection \<open>Numeric strings (validator.js \<open>isInt\<close>, JavaScript \<open>Number\<close>)\<close>

definition is_digit :: "char \<Rightarrow> bool" where
  "is_digit c = (c \<in> set ''0123456789'')"

definition digit_val :: "char \<Rightarrow> int" where
  "digit_val c = int (of_char c) - 48"

definition strip_sign :: "string \<Rightarrow> string" where
  "strip_sign s =
     (case s of [] \<Rightarrow> [] | c # cs \<Rightarrow> if c = CHR ''-'' \<or> c = CHR ''+'' then cs else s)"

text \<open>The pattern \<open>^[-+]?[0-9]+$\<close> (leading zeroes are allowed by default).\<close>

definition int_syntax :: "string \<Rightarrow> bool" where
  "int_syntax s = (let t = strip_sign s in t \<noteq> [] \<and> list_all is_digit t)"

text \<open>The integer that a string of that syntax denotes.\<close>

definition parse_int :: "string \<Rightarrow> int" where
  "parse_int s =
     (let v = foldl (\<lambda>a c. 10 * a + digit_val c) 0 (strip_sign s)
      in (case s of [] \<Rightarrow> v | c # cs \<Rightarrow> if c = CHR ''-'' then - v else v))"

subsection \<open>JavaScript numbers\<close>

text \<open>
  A JavaScript number is an IEEE 754 double: the result of an operation is the exact
  result rounded to the nearest double, ties to the even significand. A double is
  \<open>m * 2 ^ e\<close> with \<open>\<bar>m\<bar> < 2 ^ 53\<close> and \<open>- 1074 \<le> e\<close>; \<open>binade x\<close> is the \<open>b\<close> with
  \<open>2 ^ (b - 1) \<le> \<bar>x\<bar> < 2 ^ b\<close>. \<open>to_double\<close> rounds with an unbounded exponent; the
  result of the operation is an infinity when that is \<open>2 ^ 1024\<close> or more in absolute
  value.
\<close>

definition pow2 :: "int \<Rightarrow> rat" where
  "pow2 e = 2 powi e"

definition binade :: "rat \<Rightarrow> int" where
  "binade x = (if 1 \<le> \<bar>x\<bar> then bitlen \<lfloor>\<bar>x\<bar>\<rfloor> else 1 - bitlen (\<lceil>1 / \<bar>x\<bar>\<rceil> - 1))"

definition round_even :: "rat \<Rightarrow> int" where
  "round_even y =
     (let f = \<lfloor>y\<rfloor>; d = y - of_int f
      in if d < 1 / 2 then f else if 1 / 2 < d then f + 1 else if even f then f else f + 1)"

definition to_double :: "rat \<Rightarrow> rat" where
  "to_double x =
     (if x = 0 then 0
      else let e = max (binade x - 53) (- 1074)
           in of_int (round_even (x / pow2 e)) * pow2 e)"

text \<open>The double nearest to an integer (an integer itself), and whether it is infinite.\<close>

definition dbl_int :: "int \<Rightarrow> int" where
  "dbl_int n = \<lfloor>to_double (of_int n)\<rfloor>"

definition dbl_overflow :: "int \<Rightarrow> bool" where
  "dbl_overflow n = (2 ^ 1024 \<le> \<bar>to_double (of_int n)\<bar>)"

datatype jsnum = Fin int | PosInf | NegInf

fun num_le :: "jsnum \<Rightarrow> jsnum \<Rightarrow> bool" where
  "num_le (Fin a) (Fin b) = (a \<le> b)"
| "num_le (Fin a) PosInf = True"
| "num_le (Fin a) NegInf = False"
| "num_le PosInf b = (b = PosInf)"
| "num_le NegInf b = True"

text \<open>\<open>Number(s)\<close> on a string of the integer syntax.\<close>

definition to_number :: "string \<Rightarrow> jsnum" where
  "to_number s =
     (let n = parse_int s
      in if dbl_overflow n then (if 0 < n then PosInf else NegInf) else Fin (dbl_int n))"

text \<open>
  \<open>isInt(str, {min, max})\<close>: the pattern, and the comparisons \<open>str >= min\<close> and
  \<open>str <= max\<close>, which convert the string to a number.
\<close>

definition isInt :: "int option \<Rightarrow> int option \<Rightarrow> string \<Rightarrow> bool" where
  "isInt lo hi s =
     (int_syntax s
      \<and> (case lo of None \<Rightarrow> True | Some m \<Rightarrow> num_le (Fin m) (to_number s))
      \<and> (case hi of None \<Rightarrow> True | Some m \<Rightarrow> num_le (to_number s) (Fin m)))"

subsection \<open>Record identifiers (validator.js \<open>isMongoId\<close>, the ObjectId cast)\<close>

definition is_hex_digit :: "char \<Rightarrow> bool" where
  "is_hex_digit c = (c \<in> set ''0123456789abcdefABCDEF'')"

text \<open>The pattern \<open>^(0x|0h)?[0-9A-F]+$\<close>, case-insensitive.\<close>

definition hex_word :: "string \<Rightarrow> bool" where
  "hex_word t = (t \<noteq> [] \<and> list_all is_hex_digit t)"

definition isHexadecimal :: "string \<Rightarrow> bool" where
  "isHexadecimal s =
     (hex_word s
      \<or> ((toLowerCase (take 2 s) = ''0x'' \<or> toLowerCase (take 2 s) = ''0h'') \<and> hex_word (drop 2 s)))"

definition isMongoId :: "string \<Rightarrow> bool" where
  "isMongoId s = (isHexadecimal s \<and> length s = 24)"

text \<open>
  The cast of a 24-character string to an ObjectId: 24 hexadecimal digits, read
  case-insensitively; anything else is a cast error.
\<close>

definition cast_object_id :: "string \<Rightarrow> string option" where
  "cast_object_id s =
     (if length s = 24 \<and> list_all is_hex_digit s then Some (toLowerCase s) else None)"

section \<open>Data model\<close>

text \<open>
  A stored Post document (models/Post.js). A raw document of the collection may lack
  the \<open>image\<close> field, so it is optional here; the schema default is applied when a
  document is constructed. The timestamps that the schema adds are not modelled.
\<close>

record post =
  post_id :: string
  heading :: string
  description :: string
  image :: "string option"

text \<open>The plain objects \<open>postData\<close> and \<open>updateData\<close> that the handlers build.\<close>

record post_data =
  pd_heading :: "string option"
  pd_description :: "string option"
  pd_image :: "string option"

text \<open>The file part of a multipart request, as multer's \<open>fileFilter\<close> sees it.\<close>

record attachment =
  originalname :: string
  mimetype :: string
  size_bytes :: nat

datatype verb = GET | POST | PUT | DELETE

datatype resource = PostsRoot | PostsById string | AuthRoute

type_synonym verror = "string \<times> string"

text \<open>
  The request object as the middleware chain reads and mutates it: the query and
  body fields (rewritten by the sanitizers), the file part and \<open>req.file.path\<close>
  (set by multer), and the errors that the validators have recorded on the request.
\<close>

record request =
  ip :: string
  meth :: verb
  resource :: resource
  authorized :: bool
  q_page :: "string option"
  q_limit :: "string option"
  q_search :: "string option"
  q_sort :: "string option"
  body_heading :: "string option"
  body_description :: "string option"
  image_part :: "attachment option"
  file_path :: "string option"
  verrors :: "verror list"

record pagination =
  totalPages :: int
  currentPage :: int
  totalPosts :: int
  limit :: int
  hasMore :: bool

datatype body =
    PostList "post list" pagination
  | PostFound post
  | PostCreated post
  | PostUpdated "post option"
  | PostDeleted
  | Failure string
  | ValidationFailed "(string \<times> string list) list"
  | Unauthenticated

record response =
  status :: nat
  body :: body

datatype exn = StoreError | CastError | ValidationError "string list" | DuplicateKey | CloudError
  | UploadRejected string

text \<open>What a middleware does: pass the request on, or answer it.\<close>

datatype flow = Next request | Respond response

datatype limiter_class = General | Authentication | Upload

datatype call =
    AssetUpload string
  | AssetDestroy string
  | RecordInsert string
  | RecordUpdate string
  | RecordDelete string

text \<open>
  The state outside the request: the Post collection, the public ids of the blobs in
  the Asset Store, the hits that each limiter has counted per address in its current
  window, the console, and the calls that have taken effect on the two stores, oldest
  first.
\<close>

record world =
  docs :: "post list"
  blobs :: "string list"
  hits :: "(limiter_class \<times> string) list"
  console :: "string list"
  effects :: "call list"

text \<open>
  What the environment decides during one request: whether the database connects,
  whether its reads and writes throw (the database is down, or it refuses the query,
  as it does a skip beyond its range), whether the Asset Store's upload and destroy
  calls throw, the ObjectId generated for a new document, the value of the
  \<open>public_id\<close> callback (\<open>blog_<timestamp>_<random>\<close>) and the URL that the
  Asset Store returns for the uploaded blob, the order in which the database
  returns documents for a sort specification, and the database's regular-expression
  engine on the patterns that are not matched here (see the query filters): for a
  pattern, \<open>None\<close> when the engine refuses it, otherwise the set of the strings in which
  it has a match, ignoring case.
\<close>

record env =
  db_connects :: bool
  reads_fail :: bool
  writes_fail :: bool
  upload_fails :: bool
  destroy_fails :: bool
  object_id :: string
  upload_name :: string
  upload_url :: string
  sort_docs :: "string \<Rightarrow> post list \<Rightarrow> post list"
  regex_engine :: "string \<Rightarrow> (string \<Rightarrow> bool) option"


section \<open>Rate Admission Control (middleware/rateLimiter)\<close>

record limiter =
  cls :: limiter_class
  windowMs :: nat
  max_hits :: nat
  message :: string

definition apiLimiter :: limiter where
  "apiLimiter = \<lparr>cls = General, windowMs = 15 * 60 * 1000, max_hits = 100,
     message = ''Too many requests from this IP, please try again later''\<rparr>"

definition authLimiter :: limiter where
  "authLimiter = \<lparr>cls = Authentication, windowMs = 15 * 60 * 1000, max_hits = 20,
     message = ''Too many authentication attempts, please try again later''\<rparr>"

definition uploadLimiter :: limiter where
  "uploadLimiter = \<lparr>cls = Upload, windowMs = 60 * 60 * 1000, max_hits = 50,
     message = ''Too many uploads, please try again later''\<rparr>"

text \<open>
  The middleware that \<open>rateLimit(options)\<close> returns. Each limiter has a store of its
  own, keyed by the client address: the request is counted, and answered with 429 when
  the count exceeds \<open>max\<close> (the field \<open>max_hits\<close>). The expiry of a window is real
  time and is not modelled: \<open>hits\<close> holds the hits of the current window.
\<close>

definition rateLimit :: "limiter \<Rightarrow> request \<Rightarrow> world \<Rightarrow> flow \<times> world" where
  "rateLimit l r w =
     (let w' = w\<lparr>hits := hits w @ [(cls l, ip r)]\<rparr>;
          totalHits = count_list (hits w') (cls l, ip r)
      in if totalHits > max_hits l
         then (Respond \<lparr>status = 429, body = Failure (message l)\<rparr>, w')
         else (Next r, w'))"

section \<open>Authorization Gate\<close>

text \<open>
  Modelled from the spec: the \<open>auth\<close> middleware (middleware/auth) is not among the
  sources. Given the presented credential it lets the request pass or fails with
  Unauthenticated (401); whether the credential verifies is the request's
  \<open>authorized\<close> field.
\<close>

definition auth :: "request \<Rightarrow> world \<Rightarrow> flow \<times> world" where
  "auth r w =
     (if authorized r then (Next r, w) else (Respond \<lparr>status = 401, body = Unauthenticated\<rparr>, w))"

section \<open>Application error handler and connection middleware (api/index.js)\<close>

text \<open>
  \<open>error.message\<close>. The texts of the errors that the database driver and the Asset
  Store client raise are theirs; the ones here stand for them.
\<close>

definition exn_message :: "exn \<Rightarrow> string" where
  "exn_message x =
     (case x of
        StoreError \<Rightarrow> ''store unavailable''
      | CastError \<Rightarrow> ''Cast to ObjectId failed''
      | ValidationError ms \<Rightarrow> ''Validation failed: '' @ concat ms
      | DuplicateKey \<Rightarrow> ''E11000 duplicate key error''
      | CloudError \<Rightarrow> ''asset store unavailable''
      | UploadRejected m \<Rightarrow> m)"

definition error_handler :: "exn \<Rightarrow> response" where
  "error_handler x =
     (case x of
        ValidationError ms \<Rightarrow> \<lparr>status = 400, body = Failure ''Validation Error''\<rparr>
      | DuplicateKey \<Rightarrow> \<lparr>status = 400, body = Failure ''Duplicate field value entered''\<rparr>
      | _ \<Rightarrow> \<lparr>status = 500, body = Failure (exn_message x)\<rparr>)"

definition connection :: "env \<Rightarrow> request \<Rightarrow> world \<Rightarrow> flow \<times> world" where
  "connection e r w =
     (if db_connects e then (Next r, w)
      else (Respond \<lparr>status = 503, body = Failure ''Database connection failed''\<rparr>, w))"

section \<open>Asset Store Adapter (config/cloudinary, multer)\<close>

text \<open>\<open>path.extname\<close> of Node.\<close>

definition basename_part :: "string \<Rightarrow> string" where
  "basename_part p = last (split_on CHR ''/'' (rev (dropWhile (\<lambda>c. c = CHR ''/'') (rev p))))"

definition extname :: "string \<Rightarrow> string" where
  "extname p =
     (let b = basename_part p;
          suf = rev (takeWhile (\<lambda>c. c \<noteq> CHR ''.'') (rev b));
          pre = take (length b - length suf - 1) b
      in if CHR ''.'' \<notin> set b \<or> pre = [] \<or> b = ''..'' then [] else CHR ''.'' # suf)"

definition allowedTypes :: "string list" where
  "allowedTypes = [''jpeg'', ''jpg'', ''png'', ''gif'', ''webp'']"

definition fileFilter :: "attachment \<Rightarrow> bool" where
  "fileFilter f =
     (let extname_ok = test_words allowedTypes (toLowerCase (extname (originalname f)));
          mimetype_ok = test_words allowedTypes (mimetype f)
      in mimetype_ok \<and> extname_ok)"

definition fileSize :: nat where
  "fileSize = 5 * 1024 * 1024"

text \<open>
  \<open>cloudinary.uploader.destroy(publicId)\<close>: the call throws when the service fails;
  otherwise the blob is gone afterwards, and destroying an absent blob changes nothing.
\<close>

definition destroy :: "env \<Rightarrow> string \<Rightarrow> world \<Rightarrow> exn + world" where
  "destroy e publicId w =
     (if destroy_fails e then Inl CloudError
      else Inr (w\<lparr>blobs := removeAll publicId (blobs w),
                  effects := effects w @ [AssetDestroy publicId]\<rparr>))"

text \<open>
  \<open>upload.single('image')\<close> with the Cloudinary storage engine: a request without a
  file part named \<open>image\<close> passes unchanged; a file part is filtered first and then
  streamed to the Asset Store under \<open>blog-uploads/<public_id>\<close>, and
  \<open>req.file.path\<close> is the URL returned. The stream is cut when it reaches
  \<open>fileSize\<close> bytes: multer then waits for the upload to finish, removes what was
  uploaded with the storage engine's \<open>_removeFile\<close> (a \<open>destroy\<close> call whose failure
  it ignores) and fails with 'File too large'. An error goes to the application's
  error handler.
\<close>

definition upload_single :: "env \<Rightarrow> request \<Rightarrow> world \<Rightarrow> flow \<times> world" where
  "upload_single e r w =
     (case image_part r of
        None \<Rightarrow> (Next r, w)
      | Some f \<Rightarrow>
          let publicId = ''blog-uploads/'' @ upload_name e;
              uploaded = w\<lparr>blobs := blobs w @ [publicId],
                           effects := effects w @ [AssetUpload publicId]\<rparr>
          in if \<not> fileFilter f
             then (Respond (error_handler
                     (UploadRejected ''Only image files (jpg, jpeg, png, gif, webp) are allowed!'')), w)
             else if fileSize \<le> size_bytes f
             then (Respond (error_handler (UploadRejected ''File too large'')),
                   (if upload_fails e then w
                    else (case destroy e publicId uploaded of
                            Inl x \<Rightarrow> uploaded
                          | Inr w' \<Rightarrow> w')))
             else if upload_fails e
             then (Respond (error_handler CloudError), w)
             else (Next (r\<lparr>file_path := Some (upload_url e)\<rparr>), uploaded))"

text \<open>The body of the \<open>try\<close> block of \<open>deleteImage\<close>.\<close>

definition deleteImage_try :: "env \<Rightarrow> string \<Rightarrow> world \<Rightarrow> exn + world" where
  "deleteImage_try e imageUrl w =
     (if imageUrl = [] then Inr w
      else
        let urlParts = split_on CHR ''/'' imageUrl;
            publicIdWithExt = last urlParts;
            publicId = ''blog-uploads/'' @ hd (split_on CHR ''.'' publicIdWithExt)
        in (case destroy e publicId w of
              Inl x \<Rightarrow> Inl x
            | Inr w' \<Rightarrow> Inr (w'\<lparr>console := console w' @ [''Deleted image: '' @ publicId]\<rparr>)))"

text \<open>
  \<open>deleteImage\<close>: the \<open>catch\<close> clause logs the error and returns. The result is a sum
  so that a caller's own \<open>catch\<close> has something to match on.
\<close>

definition deleteImage :: "env \<Rightarrow> string \<Rightarrow> world \<Rightarrow> exn + world" where
  "deleteImage e imageUrl w =
     (case deleteImage_try e imageUrl w of
        Inl x \<Rightarrow> Inr (w\<lparr>console := console w @ [''Error deleting image: '' @ exn_message x]\<rparr>)
      | Inr w' \<Rightarrow> Inr w')"


section \<open>Record Store Adapter (models/Post.js, Mongoose)\<close>

text \<open>Casting by the schema: \<open>trim: true\<close> on heading and description.\<close>

definition cast_data :: "post_data \<Rightarrow> post_data" where
  "cast_data d = d\<lparr>pd_heading := map_option trim (pd_heading d),
                   pd_description := map_option trim (pd_description d)\<rparr>"

text \<open>The schema's validators of a path; the first one that fails reports.\<close>

definition heading_errors :: "string \<Rightarrow> string list" where
  "heading_errors h =
     (if h = [] then [''Heading is required'']
      else if length h < 3 then [''Heading must be at least 3 characters'']
      else if length h > 200 then [''Heading cannot exceed 200 characters'']
      else [])"

definition description_errors :: "string \<Rightarrow> string list" where
  "description_errors d =
     (if d = [] then [''Description is required'']
      else if length d < 10 then [''Description must be at least 10 characters'']
      else [])"

text \<open>\<open>new Post(postData)\<close> followed by \<open>save()\<close>.\<close>

definition save_new :: "env \<Rightarrow> post_data \<Rightarrow> world \<Rightarrow> exn + post \<times> world" where
  "save_new e postData w =
     (let c = cast_data postData;
          errs = heading_errors (str_of (pd_heading c)) @ description_errors (str_of (pd_description c));
          doc = \<lparr>post_id = object_id e,
                 heading = str_of (pd_heading c),
                 description = str_of (pd_description c),
                 image = Some (case pd_image c of None \<Rightarrow> [] | Some u \<Rightarrow> u)\<rparr>
      in if errs \<noteq> [] then Inl (ValidationError errs)
         else if writes_fail e then Inl StoreError
         else if list_ex (\<lambda>p. post_id p = object_id e) (docs w) then Inl DuplicateKey
         else Inr (doc, w\<lparr>docs := docs w @ [doc],
                           effects := effects w @ [RecordInsert (object_id e)]\<rparr>))"

text \<open>
  A document that a query returns is built from the stored one by the schema, which
  gives a path that the stored document lacks its default: \<open>image\<close> reads as \<open>''\<close>.
  (The list query is \<open>lean\<close> and returns the stored documents as they are.)
\<close>

definition hydrate :: "post \<Rightarrow> post" where
  "hydrate p = p\<lparr>image := Some (case image p of None \<Rightarrow> [] | Some u \<Rightarrow> u)\<rparr>"

definition findById :: "env \<Rightarrow> string \<Rightarrow> world \<Rightarrow> exn + post option" where
  "findById e i w =
     (case cast_object_id i of
        None \<Rightarrow> Inl CastError
      | Some oid \<Rightarrow>
          if reads_fail e then Inl StoreError
          else Inr (map_option hydrate (find (\<lambda>p. post_id p = oid) (docs w))))"

fun replace_first :: "string \<Rightarrow> post \<Rightarrow> post list \<Rightarrow> post list" where
  "replace_first oid p' [] = []"
| "replace_first oid p' (p # ps) =
     (if post_id p = oid then p' # ps else p # replace_first oid p' ps)"

fun remove_first :: "string \<Rightarrow> post list \<Rightarrow> post list" where
  "remove_first oid [] = []"
| "remove_first oid (p # ps) = (if post_id p = oid then ps else p # remove_first oid ps)"

text \<open>The \<open>$set\<close> of the fields that the update object has.\<close>

definition apply_update :: "post_data \<Rightarrow> post \<Rightarrow> post" where
  "apply_update u p =
     p\<lparr>heading := (case pd_heading u of None \<Rightarrow> heading p | Some h \<Rightarrow> h),
       description := (case pd_description u of None \<Rightarrow> description p | Some d \<Rightarrow> d),
       image := (case pd_image u of None \<Rightarrow> image p | Some url \<Rightarrow> Some url)\<rparr>"

text \<open>\<open>findByIdAndUpdate(id, updateData, {new: true, runValidators: true})\<close>.\<close>

definition findByIdAndUpdate ::
  "env \<Rightarrow> string \<Rightarrow> post_data \<Rightarrow> world \<Rightarrow> exn + post option \<times> world" where
  "findByIdAndUpdate e i updateData w =
     (case cast_object_id i of
        None \<Rightarrow> Inl CastError
      | Some oid \<Rightarrow>
          let c = cast_data updateData;
              errs = (case pd_heading c of None \<Rightarrow> [] | Some h \<Rightarrow> heading_errors h)
                   @ (case pd_description c of None \<Rightarrow> [] | Some d \<Rightarrow> description_errors d)
          in if errs \<noteq> [] then Inl (ValidationError errs)
             else if writes_fail e then Inl StoreError
             else (case find (\<lambda>p. post_id p = oid) (docs w) of
                     None \<Rightarrow> Inr (None, w)
                   | Some p \<Rightarrow>
                       Inr (Some (hydrate (apply_update c p)),
                            w\<lparr>docs := replace_first oid (apply_update c p) (docs w),
                              effects := effects w @ [RecordUpdate oid]\<rparr>)))"

definition findByIdAndDelete :: "env \<Rightarrow> string \<Rightarrow> world \<Rightarrow> exn + world" where
  "findByIdAndDelete e i w =
     (case cast_object_id i of
        None \<Rightarrow> Inl CastError
      | Some oid \<Rightarrow>
          if writes_fail e then Inl StoreError
          else (case find (\<lambda>p. post_id p = oid) (docs w) of
                  None \<Rightarrow> Inr w
                | Some p \<Rightarrow>
                    Inr (w\<lparr>docs := remove_first oid (docs w),
                           effects := effects w @ [RecordDelete oid]\<rparr>)))"

subsection \<open>Query filters\<close>

text \<open>
  The \<open>$regex\<close> operator with option \<open>i\<close> searches the field for a match of the
  pattern, ignoring case. The patterns matched here are those built from ordinary
  characters and the dot, which matches any character but a line feed; a pattern that
  has another metacharacter (\<open>parse_regex\<close> is \<open>None\<close>) goes to the engine that the
  environment supplies.
\<close>

datatype ritem = Lit char | AnyChar

definition other_meta :: "char list" where
  "other_meta = [CHR 0x5C, CHR ''^'', CHR ''$'', CHR ''|'', CHR ''?'', CHR ''*'', CHR ''+'',
                 CHR ''('', CHR '')'', CHR ''['', CHR '']'', CHR ''{'', CHR ''}'']"

definition parse_regex :: "string \<Rightarrow> ritem list option" where
  "parse_regex pat =
     (if list_ex (\<lambda>c. c \<in> set other_meta) pat then None
      else Some (map (\<lambda>c. if c = CHR ''.'' then AnyChar else Lit c) pat))"

fun item_matches :: "ritem \<Rightarrow> char \<Rightarrow> bool" where
  "item_matches (Lit a) c = (to_lower a = to_lower c)"
| "item_matches AnyChar c = (c \<noteq> CHR 0x0A)"

fun match_here :: "ritem list \<Rightarrow> string \<Rightarrow> bool" where
  "match_here [] s = True"
| "match_here (i # is) [] = False"
| "match_here (i # is) (c # cs) = (item_matches i c \<and> match_here is cs)"

fun regex_search :: "ritem list \<Rightarrow> string \<Rightarrow> bool" where
  "regex_search is [] = match_here is []"
| "regex_search is (c # cs) = (match_here is (c # cs) \<or> regex_search is cs)"

datatype filter = MatchAll | OrRegex string

text \<open>
  The documents that \<open>Post.find(filter)\<close> and \<open>countDocuments(filter)\<close> select; the
  query throws when the engine refuses the pattern.
\<close>

definition find_docs :: "env \<Rightarrow> filter \<Rightarrow> post list \<Rightarrow> exn + post list" where
  "find_docs e f ds =
     (case f of
        MatchAll \<Rightarrow> Inr ds
      | OrRegex pat \<Rightarrow>
          (case parse_regex pat of
             Some is \<Rightarrow>
               Inr (filter (\<lambda>p. regex_search is (heading p) \<or> regex_search is (description p)) ds)
           | None \<Rightarrow>
               (case regex_engine e pat of
                  None \<Rightarrow> Inl StoreError
                | Some matches \<Rightarrow>
                    Inr (filter (\<lambda>p. matches (heading p) \<or> matches (description p)) ds))))"


section \<open>Validation Layer (middleware/validators, middleware/validate)\<close>

text \<open>
  A validation chain records its errors on the request, in the order of its
  validators, and writes the sanitized value back; every validator of a chain runs.
  A chain that starts with \<open>optional()\<close> is skipped for an absent field.
\<close>

definition record_errors :: "verror list \<Rightarrow> request \<Rightarrow> request" where
  "record_errors errs r = r\<lparr>verrors := verrors r @ errs\<rparr>"

definition heading_required :: "string \<Rightarrow> verror list" where
  "heading_required h = (if h = [] then [(''heading'', ''Heading is required'')] else [])"

definition heading_length :: "string \<Rightarrow> verror list" where
  "heading_length h =
     (if 3 \<le> length h \<and> length h \<le> 200 then []
      else [(''heading'', ''Heading must be between 3 and 200 characters'')])"

definition description_required :: "string \<Rightarrow> verror list" where
  "description_required d =
     (if d = [] then [(''description'', ''Description is required'')] else [])"

definition description_length :: "string \<Rightarrow> verror list" where
  "description_length d =
     (if 10 \<le> length d then []
      else [(''description'', ''Description must be at least 10 characters'')])"

definition id_errors :: "string \<Rightarrow> verror list" where
  "id_errors i = (if isMongoId i then [] else [(''id'', ''Invalid post ID'')])"

definition validators_create :: "request \<Rightarrow> world \<Rightarrow> flow \<times> world" where
  "validators_create r w =
     (let h = trim (str_of (body_heading r));
          d = trim (str_of (body_description r))
      in (Next (record_errors
                  (heading_required h @ heading_length h
                   @ description_required d @ description_length d)
                  (r\<lparr>body_heading := Some h, body_description := Some d\<rparr>)), w))"

definition validators_update :: "string \<Rightarrow> request \<Rightarrow> world \<Rightarrow> flow \<times> world" where
  "validators_update i r w =
     (let h = map_option trim (body_heading r);
          d = map_option trim (body_description r)
      in (Next (record_errors
                  (id_errors i
                   @ (case h of None \<Rightarrow> [] | Some v \<Rightarrow> heading_length v)
                   @ (case d of None \<Rightarrow> [] | Some v \<Rightarrow> description_length v))
                  (r\<lparr>body_heading := h, body_description := d\<rparr>)), w))"

definition validators_getById :: "string \<Rightarrow> request \<Rightarrow> world \<Rightarrow> flow \<times> world" where
  "validators_getById i r w = (Next (record_errors (id_errors i) r), w)"

definition validators_delete :: "string \<Rightarrow> request \<Rightarrow> world \<Rightarrow> flow \<times> world" where
  "validators_delete i r w = (Next (record_errors (id_errors i) r), w)"

definition validators_list :: "request \<Rightarrow> world \<Rightarrow> flow \<times> world" where
  "validators_list r w =
     (let s = map_option trim (q_search r)
      in (Next (record_errors
                  ((case q_page r of None \<Rightarrow> []
                    | Some v \<Rightarrow> if isInt (Some 1) None v then []
                                else [(''page'', ''Page must be a positive integer'')])
                   @ (case q_limit r of None \<Rightarrow> []
                      | Some v \<Rightarrow> if isInt (Some 1) (Some 100) v then []
                                  else [(''limit'', ''Limit must be between 1 and 100'')])
                   @ (case s of None \<Rightarrow> []
                      | Some v \<Rightarrow> if length v \<le> 100 then []
                                  else [(''search'', ''Search query too long'')]))
                  (r\<lparr>q_search := s\<rparr>)), w))"

text \<open>
  \<open>formattedErrors\<close>: an object from field name to the list of its messages. The keys
  keep the order of their first error, the messages the order of the errors.
\<close>

fun push_error :: "(string \<times> string list) list \<Rightarrow> verror \<Rightarrow> (string \<times> string list) list" where
  "push_error m (path, msg) =
     (case map_of m path of
        None \<Rightarrow> m @ [(path, [msg])]
      | Some ms \<Rightarrow> map (\<lambda>(k, v). if k = path then (k, v @ [msg]) else (k, v)) m)"

definition format_errors :: "verror list \<Rightarrow> (string \<times> string list) list" where
  "format_errors errs = foldl push_error [] errs"

definition validate :: "request \<Rightarrow> world \<Rightarrow> flow \<times> world" where
  "validate r w =
     (if verrors r \<noteq> []
      then (Respond \<lparr>status = 400, body = ValidationFailed (format_errors (verrors r))\<rparr>, w)
      else (Next r, w))"


section \<open>Post Lifecycle Manager (routes/posts.js)\<close>

text \<open>A route's stack of middleware: each one passes the request on or answers it.\<close>

fun run_chain :: "(request \<Rightarrow> world \<Rightarrow> flow \<times> world) list \<Rightarrow> request \<Rightarrow> world \<Rightarrow> flow \<times> world" where
  "run_chain [] r w = (Next r, w)"
| "run_chain (m # ms) r w =
     (case m r w of
        (Next r', w') \<Rightarrow> run_chain ms r' w'
      | (Respond resp, w') \<Rightarrow> (Respond resp, w'))"

definition log_error :: "string \<Rightarrow> world \<Rightarrow> world" where
  "log_error m w = w\<lparr>console := console w @ [m]\<rparr>"

text \<open>\<open>Math.ceil(a / b)\<close> for a positive divisor: the quotient is rounded to a double.\<close>

definition math_ceil_div :: "int \<Rightarrow> int \<Rightarrow> int" where
  "math_ceil_div a b = \<lceil>to_double (rat_of_int a / rat_of_int b)\<rceil>"

text \<open>
  The handler of \<open>GET /\<close>. It is reached through the list validators only, which
  admit a page that is a number of at least 1, infinite for a string of digits that is
  too long, and a limit from 1 to 100; on other values the handler is not modelled
  (\<open>None\<close>). An infinite page makes an infinite skip, which the query refuses. A
  collection holds fewer than \<open>2 ^ 53\<close> documents: its count is a double as it is, and
  the skip \<open>(Number(page) - 1) * Number(limit)\<close> is rounded only where it exceeds the
  count either way, so the count and the skip are exact here. The quotient and the
  product of the pagination block are rounded.
\<close>

definition get_posts :: "env \<Rightarrow> request \<Rightarrow> world \<Rightarrow> (response \<times> world) option" where
  "get_posts e r w =
     (let page = (case q_page r of None \<Rightarrow> Fin 1 | Some v \<Rightarrow> to_number v);
          limit = (case q_limit r of None \<Rightarrow> Fin 10 | Some v \<Rightarrow> to_number v);
          search = q_search r;
          sort = (case q_sort r of None \<Rightarrow> ''-createdAt'' | Some v \<Rightarrow> v);
          filter = (if truthy search then OrRegex (str_of search) else MatchAll);
          failed = (\<lparr>status = 500, body = Failure ''Server error''\<rparr>,
                    log_error ''Get posts error:'' w)
      in (case limit of
            Fin l \<Rightarrow>
              if l < 1 \<or> 100 < l then None
              else (case page of
                      NegInf \<Rightarrow> None
                    | PosInf \<Rightarrow> Some failed
                    | Fin p \<Rightarrow>
                        if p < 1 then None
                        else if reads_fail e then Some failed
                        else (case find_docs e filter (docs w) of
                                Inl x \<Rightarrow> Some failed
                              | Inr matched \<Rightarrow>
                                  let posts = take (nat l)
                                        (drop (nat ((p - 1) * l)) (sort_docs e sort matched));
                                      totalPosts = int (length matched)
                                  in Some (\<lparr>status = 200,
                                             body = PostList posts
                                               \<lparr>totalPages = math_ceil_div totalPosts l,
                                                currentPage = p,
                                                totalPosts = totalPosts,
                                                limit = l,
                                                hasMore = (dbl_int (p * l) < totalPosts)\<rparr>\<rparr>,
                                           w)))
          | _ \<Rightarrow> None))"

definition get_post :: "env \<Rightarrow> string \<Rightarrow> request \<Rightarrow> world \<Rightarrow> response \<times> world" where
  "get_post e i r w =
     (case findById e i w of
        Inl x \<Rightarrow> (\<lparr>status = 500, body = Failure ''Server error''\<rparr>, log_error ''Get post error:'' w)
      | Inr None \<Rightarrow> (\<lparr>status = 404, body = Failure ''Post not found''\<rparr>, w)
      | Inr (Some post) \<Rightarrow> (\<lparr>status = 200, body = PostFound post\<rparr>, w))"

definition create_post :: "env \<Rightarrow> request \<Rightarrow> world \<Rightarrow> response \<times> world" where
  "create_post e r w =
     (let postData = \<lparr>pd_heading = body_heading r, pd_description = body_description r,
                      pd_image = None\<rparr>;
          postData = (case file_path r of
                        None \<Rightarrow> postData
                      | Some path \<Rightarrow> postData\<lparr>pd_image := Some path\<rparr>)
      in (case save_new e postData w of
            Inl x \<Rightarrow> (\<lparr>status = 400, body = Failure ''Error creating post''\<rparr>,
                      log_error ''Create post error:'' w)
          | Inr (post, w') \<Rightarrow> (\<lparr>status = 201, body = PostCreated post\<rparr>, w')))"

text \<open>
  The part of the update handler between the lookup and the record update: the
  update object is built, and for a new image the old one is deleted from the Asset
  Store first.
\<close>

definition build_update :: "env \<Rightarrow> post \<Rightarrow> request \<Rightarrow> world \<Rightarrow> exn + post_data \<times> world" where
  "build_update e existingPost r w =
     (let updateData = \<lparr>pd_heading = (if truthy (body_heading r) then body_heading r else None),
                        pd_description = (if truthy (body_description r) then body_description r else None),
                        pd_image = None\<rparr>
      in (case file_path r of
            None \<Rightarrow> Inr (updateData, w)
          | Some path \<Rightarrow>
              (case (if truthy (image existingPost)
                     then deleteImage e (str_of (image existingPost)) w
                     else Inr w) of
                 Inl x \<Rightarrow> Inl x
               | Inr w' \<Rightarrow> Inr (updateData\<lparr>pd_image := Some path\<rparr>, w'))))"

definition update_post :: "env \<Rightarrow> string \<Rightarrow> request \<Rightarrow> world \<Rightarrow> response \<times> world" where
  "update_post e i r w =
     (case findById e i w of
        Inl x \<Rightarrow> (\<lparr>status = 400, body = Failure (exn_message x)\<rparr>, log_error ''Update post error:'' w)
      | Inr None \<Rightarrow> (\<lparr>status = 404, body = Failure ''Post not found''\<rparr>, w)
      | Inr (Some existingPost) \<Rightarrow>
          (case build_update e existingPost r w of
             Inl x \<Rightarrow> (\<lparr>status = 400, body = Failure (exn_message x)\<rparr>,
                       log_error ''Update post error:'' w)
           | Inr (updateData, w1) \<Rightarrow>
               (case findByIdAndUpdate e i updateData w1 of
                  Inl x \<Rightarrow> (\<lparr>status = 400, body = Failure (exn_message x)\<rparr>,
                            log_error ''Update post error:'' w1)
                | Inr (post, w2) \<Rightarrow> (\<lparr>status = 200, body = PostUpdated post\<rparr>, w2))))"

definition delete_post :: "env \<Rightarrow> string \<Rightarrow> request \<Rightarrow> world \<Rightarrow> response \<times> world" where
  "delete_post e i r w =
     (case findById e i w of
        Inl x \<Rightarrow> (\<lparr>status = 500, body = Failure ''Server error''\<rparr>, log_error ''Delete post error:'' w)
      | Inr None \<Rightarrow> (\<lparr>status = 404, body = Failure ''Post not found''\<rparr>, w)
      | Inr (Some post) \<Rightarrow>
          (case (if truthy (image post) then deleteImage e (str_of (image post)) w else Inr w) of
             Inl x \<Rightarrow> (\<lparr>status = 500, body = Failure ''Server error''\<rparr>,
                       log_error ''Delete post error:'' w)
           | Inr w1 \<Rightarrow>
               (case findByIdAndDelete e i w1 of
                  Inl x \<Rightarrow> (\<lparr>status = 500, body = Failure ''Server error''\<rparr>,
                            log_error ''Delete post error:'' w1)
                | Inr w2 \<Rightarrow> (\<lparr>status = 200, body = PostDeleted\<rparr>, w2))))"

text \<open>The router: each route is its middleware stack followed by its handler.\<close>

definition route :: "(request \<Rightarrow> world \<Rightarrow> flow \<times> world) list \<Rightarrow> (request \<Rightarrow> world \<Rightarrow> response \<times> world)
    \<Rightarrow> request \<Rightarrow> world \<Rightarrow> response \<times> world" where
  "route stack handler r w =
     (case run_chain stack r w of
        (Respond resp, w') \<Rightarrow> (resp, w')
      | (Next r', w') \<Rightarrow> handler r' w')"

definition not_found :: "request \<Rightarrow> world \<Rightarrow> response \<times> world" where
  "not_found r w = (\<lparr>status = 404, body = Failure ''Route not found''\<rparr>, w)"

definition posts_router :: "env \<Rightarrow> request \<Rightarrow> world \<Rightarrow> (response \<times> world) option" where
  "posts_router e r w =
     (case (meth r, resource r) of
        (GET, PostsRoot) \<Rightarrow>
          (case run_chain [validators_list, validate] r w of
             (Respond resp, w') \<Rightarrow> Some (resp, w')
           | (Next r', w') \<Rightarrow> get_posts e r' w')
      | (GET, PostsById i) \<Rightarrow>
          Some (route [validators_getById i, validate] (get_post e i) r w)
      | (POST, PostsRoot) \<Rightarrow>
          Some (route [auth, rateLimit uploadLimiter, upload_single e, validators_create, validate]
                  (create_post e) r w)
      | (PUT, PostsById i) \<Rightarrow>
          Some (route [auth, rateLimit uploadLimiter, upload_single e, validators_update i, validate]
                  (update_post e i) r w)
      | (DELETE, PostsById i) \<Rightarrow>
          Some (route [auth, validators_delete i, validate] (delete_post e i) r w)
      | _ \<Rightarrow> Some (not_found r w))"

section \<open>The application (api/index.js)\<close>

text \<open>
  What every request passes before its router: the connection middleware and the
  limiter of the mount point, \<open>apiLimiter\<close> for /api/posts and \<open>authLimiter\<close> for
  /api/auth. The middleware mounted before them (security headers, CORS, body parsers,
  sanitizing of keys, logging) touches neither the stores nor the limiters; a request
  here is one that has passed it, with its body parsed.
\<close>

definition admission :: "env \<Rightarrow> request \<Rightarrow> world \<Rightarrow> flow \<times> world" where
  "admission e r w =
     run_chain [connection e,
                rateLimit (case resource r of AuthRoute \<Rightarrow> authLimiter | _ \<Rightarrow> apiLimiter)] r w"

text \<open>
  The application on a request to /api/posts. A request object starts without a file
  and without recorded validation errors. The router of /api/auth is not among the
  sources: a request to it is modelled up to its admission only (\<open>None\<close> here).
\<close>

definition app :: "env \<Rightarrow> request \<Rightarrow> world \<Rightarrow> (response \<times> world) option" where
  "app e r w =
     (case admission e (r\<lparr>file_path := None, verrors := []\<rparr>) w of
        (Respond resp, w') \<Rightarrow> Some (resp, w')
      | (Next r', w') \<Rightarrow>
          (case resource r' of
             AuthRoute \<Rightarrow> None
           | _ \<Rightarrow> posts_router e r' w'))"


section \<open>Notions used in the statements\<close>

text \<open>The blob identifier that \<open>deleteImage\<close> derives from a URL.\<close>

definition public_id_of :: "string \<Rightarrow> string" where
  "public_id_of imageUrl =
     ''blog-uploads/'' @ hd (split_on CHR ''.'' (last (split_on CHR ''/'' imageUrl)))"

text \<open>The world after the upload of the request's file.\<close>

definition stored :: "env \<Rightarrow> world \<Rightarrow> world" where
  "stored e w = w\<lparr>blobs := blobs w @ [''blog-uploads/'' @ upload_name e],
                  effects := effects w @ [AssetUpload (''blog-uploads/'' @ upload_name e)]\<rparr>"

text \<open>The world after the cleanup of a post's image.\<close>

definition cleaned :: "env \<Rightarrow> string option \<Rightarrow> world \<Rightarrow> world" where
  "cleaned e img w =
     (if \<not> truthy img then w
      else if destroy_fails e
      then w\<lparr>console := console w @ [''Error deleting image: '' @ exn_message CloudError]\<rparr>
      else w\<lparr>blobs := removeAll (public_id_of (str_of img)) (blobs w),
             effects := effects w @ [AssetDestroy (public_id_of (str_of img))],
             console := console w @ [''Deleted image: '' @ public_id_of (str_of img)]\<rparr>)"

text \<open>The update object that the update handler builds from a request.\<close>

definition update_of :: "request \<Rightarrow> post_data" where
  "update_of r =
     \<lparr>pd_heading = (if truthy (body_heading r) then body_heading r else None),
      pd_description = (if truthy (body_description r) then body_description r else None),
      pd_image = file_path r\<rparr>"

text \<open>
  Trimming as the specification means it, written on its own: the white space at the
  two ends of the string is removed, the white space being the characters horizontal
  tab, line feed, vertical tab, form feed, carriage return, space and no-break space.
\<close>

definition white_space :: "char \<Rightarrow> bool" where
  "white_space c = ((of_char c :: nat) \<in> {9, 10, 11, 12, 13, 32, 160})"

fun strip_left :: "string \<Rightarrow> string" where
  "strip_left [] = []"
| "strip_left (c # cs) = (if white_space c then strip_left cs else c # cs)"

fun strip_right :: "string \<Rightarrow> string" where
  "strip_right [] = []"
| "strip_right (c # cs) =
     (if white_space c \<and> strip_right cs = [] then [] else c # strip_right cs)"

definition trimmed :: "string \<Rightarrow> string" where
  "trimmed s = strip_right (strip_left s)"

text \<open>
  Creation input as the specification words it: trimmed heading of 3 to 200
  characters, trimmed description of at least 10. An absent field is an empty one.
\<close>

definition create_input_ok :: "string option \<Rightarrow> string option \<Rightarrow> bool" where
  "create_input_ok h d =
     (3 \<le> length (trimmed (str_of h)) \<and> length (trimmed (str_of h)) \<le> 200
      \<and> 10 \<le> length (trimmed (str_of d)))"

text \<open>The errors that the creation chains record, in their order.\<close>

definition create_errors :: "string option \<Rightarrow> string option \<Rightarrow> verror list" where
  "create_errors h d =
     heading_required (trim (str_of h)) @ heading_length (trim (str_of h))
     @ description_required (trim (str_of d)) @ description_length (trim (str_of d))"

definition messages_for :: "string \<Rightarrow> verror list \<Rightarrow> string list" where
  "messages_for k errs = map snd (filter (\<lambda>e. fst e = k) errs)"

text \<open>
  The page and the limit that a list request asks for, as the integers that the
  query strings denote; the defaults are 1 and 10.
\<close>

definition list_page :: "request \<Rightarrow> int" where
  "list_page r = (case q_page r of None \<Rightarrow> 1 | Some v \<Rightarrow> parse_int v)"

definition list_limit :: "request \<Rightarrow> int" where
  "list_limit r = (case q_limit r of None \<Rightarrow> 10 | Some v \<Rightarrow> parse_int v)"

text \<open>A list query that the list validators pass.\<close>

definition list_query_valid :: "request \<Rightarrow> bool" where
  "list_query_valid r =
     ((case q_page r of None \<Rightarrow> True | Some v \<Rightarrow> isInt (Some 1) None v)
      \<and> (case q_limit r of None \<Rightarrow> True | Some v \<Rightarrow> isInt (Some 1) (Some 100) v)
      \<and> length (trim (str_of (q_search r))) \<le> 100)"

definition list_sort :: "request \<Rightarrow> string" where
  "list_sort r = (case q_sort r of None \<Rightarrow> ''-createdAt'' | Some v \<Rightarrow> v)"

definition search_term :: "request \<Rightarrow> string" where
  "search_term r = trim (str_of (q_search r))"

definition list_filter :: "request \<Rightarrow> filter" where
  "list_filter r = (if search_term r = [] then MatchAll else OrRegex (search_term r))"

text \<open>Containment as a case-insensitive substring, as the specification words it.\<close>

definition contains_ci :: "string \<Rightarrow> string \<Rightarrow> bool" where
  "contains_ci t s = sublist (toLowerCase t) (toLowerCase s)"

text \<open>A search term without a regular-expression metacharacter.\<close>

definition plain_term :: "string \<Rightarrow> bool" where
  "plain_term t = list_all (\<lambda>c. c \<noteq> CHR ''.'' \<and> c \<notin> set other_meta) t"

text \<open>The routes whose stack has the upload limiter.\<close>

definition uses_upload_limiter :: "request \<Rightarrow> bool" where
  "uses_upload_limiter r =
     (case (meth r, resource r) of
        (POST, PostsRoot) \<Rightarrow> True
      | (PUT, PostsById i) \<Rightarrow> True
      | _ \<Rightarrow> False)"

section \<open>Concrete inputs\<close>

definition id0 :: string where
  "id0 = ''65a000000000000000000001''"

definition url0 :: string where
  "url0 = ''https://res.cloudinary.com/demo/image/upload/v1/blog-uploads/blog_0_0.jpg''"

text \<open>The strings in which the pattern \<open>o+\<close> has a match, ignoring case.\<close>

definition has_o :: "string \<Rightarrow> bool" where
  "has_o s = (CHR ''o'' \<in> set s \<or> CHR ''O'' \<in> set s)"

text \<open>
  An environment in which nothing fails. Its engine knows the pattern \<open>o+\<close> and refuses
  every other pattern that it is asked about, as it must the unbalanced \<open>(\<close>.
\<close>

definition env0 :: env where
  "env0 = \<lparr>db_connects = True, reads_fail = False, writes_fail = False, upload_fails = False,
     destroy_fails = False, object_id = ''65a000000000000000000002'', upload_name = ''blog_1_2'',
     upload_url = ''https://res.cloudinary.com/demo/image/upload/v1/blog-uploads/blog_1_2.png'',
     sort_docs = (\<lambda>s ds. ds),
     regex_engine = (\<lambda>pat. if pat = ''o+'' then Some has_o else None)\<rparr>"

definition post0 :: post where
  "post0 = \<lparr>post_id = id0, heading = ''Hello World'', description = ''A first post body'',
     image = Some url0\<rparr>"

definition world0 :: world where
  "world0 = \<lparr>docs = [post0], blobs = [''blog-uploads/blog_0_0''], hits = [], console = [],
     effects = []\<rparr>"

definition req0 :: request where
  "req0 = \<lparr>ip = ''10.0.0.1'', meth = GET, resource = PostsRoot, authorized = True,
     q_page = None, q_limit = None, q_search = None, q_sort = None,
     body_heading = None, body_description = None, image_part = None, file_path = None,
     verrors = []\<rparr>"

definition png :: attachment where
  "png = \<lparr>originalname = ''cat.PNG'', mimetype = ''image/png'', size_bytes = 1000\<rparr>"

definition put_description :: request where
  "put_description = req0\<lparr>meth := PUT, resource := PostsById id0,
     body_description := Some ''  A brand new body ''\<rparr>"

definition req_create :: "string \<Rightarrow> string \<Rightarrow> request" where
  "req_create h d = req0\<lparr>meth := POST, body_heading := Some h, body_description := Some d\<rparr>"

definition numbered :: "string \<Rightarrow> post" where
  "numbered n = \<lparr>post_id = ''65a0000000000000000000'' @ n, heading = ''Post '' @ n,
     description = ''0123456789'', image = Some []\<rparr>"

definition world25 :: world where
  "world25 = world0\<lparr>docs := map numbered
     [''00'', ''01'', ''02'', ''03'', ''04'', ''05'', ''06'', ''07'', ''08'', ''09'',
      ''10'', ''11'', ''12'', ''13'', ''14'', ''15'', ''16'', ''17'', ''18'', ''19'',
      ''20'', ''21'', ''22'', ''23'', ''24'']\<rparr>"

definition page3 :: request where
  "page3 = req0\<lparr>q_page := Some ''3'', q_limit := Some ''10''\<rparr>"

definition page2 :: request where
  "page2 = req0\<lparr>q_page := Some ''2'', q_limit := Some ''10''\<rparr>"

definition search_for :: "string \<Rightarrow> request" where
  "search_for t = req0\<lparr>q_search := Some t\<rparr>"

definition put_image :: request where
  "put_image = req0\<lparr>meth := PUT, resource := PostsById id0,
     body_heading := Some ''New heading'', image_part := Some png\<rparr>"

definition put_invalid_image :: request where
  "put_invalid_image = req0\<lparr>meth := PUT, resource := PostsById id0,
     body_description := Some ''short'', image_part := Some png\<rparr>"

definition post_invalid_image :: request where
  "post_invalid_image = req0\<lparr>meth := POST, body_heading := Some ''ab'',
     body_description := Some ''0123456789'', image_part := Some png\<rparr>"

definition delete0 :: request where
  "delete0 = req0\<lparr>meth := DELETE, resource := PostsById id0\<rparr>"

definition new_post :: post where
  "new_post = \<lparr>post_id = ''65a000000000000000000002'', heading = ''abc'',
     description = ''0123456789'', image = Some []\<rparr>"

section \<open>Arithmetic of doubles\<close>

lemma pow2_pos: "0 < pow2 e"
  by (simp add: pow2_def)

lemma pow2_mono: "a \<le> b \<Longrightarrow> pow2 a \<le> pow2 b"
  by (simp add: pow2_def power_int_increasing)

lemma pow2_add: "pow2 (a + b) = pow2 a * pow2 b"
  by (simp add: pow2_def power_int_add)

lemma pow2_nat: "0 \<le> e \<Longrightarrow> pow2 e = of_int (2 ^ nat e)"
  by (simp add: pow2_def power_int_def)

lemma pow2_neg: "pow2 (- e) = 1 / pow2 e"
  by (simp add: pow2_def power_int_minus field_simps)

lemma round_even_of_int [simp]: "round_even (of_int m) = m"
  by (simp add: round_even_def)

lemma round_even_err: "\<bar>of_int (round_even y) - y\<bar> \<le> 1 / 2"
  unfolding round_even_def Let_def
  by (auto simp: abs_if) linarith+

lemma round_even_ge:
  assumes "of_int m \<le> y"
  shows "m \<le> round_even y"
proof -
  have "m \<le> \<lfloor>y\<rfloor>" using assms by (simp add: le_floor_iff)
  moreover have "\<lfloor>y\<rfloor> \<le> round_even y"
    by (simp add: round_even_def Let_def)
  ultimately show ?thesis by simp
qed

text \<open>The integers up to \<open>2 ^ 53\<close> in absolute value are doubles.\<close>

lemma to_double_int:
  assumes "\<bar>n\<bar> \<le> 2 ^ 53"
  shows "to_double (of_int n) = of_int n"
proof (cases "n = 0")
  case True
  then show ?thesis by (simp add: to_double_def)
next
  case False
  then have pos: "0 < \<bar>n\<bar>" by simp
  have "\<bar>rat_of_int n\<bar> = rat_of_int \<bar>n\<bar>" by simp
  moreover have "1 \<le> \<bar>n\<bar>" using False by linarith
  then have "1 \<le> rat_of_int \<bar>n\<bar>" by (simp only: of_int_1_le_iff)
  ultimately have b: "binade (of_int n) = bitlen \<bar>n\<bar>"
    unfolding binade_def by (simp only: if_True floor_of_int)
  from bitlen_bounds[OF pos] have lo: "2 ^ nat (bitlen \<bar>n\<bar> - 1) \<le> \<bar>n\<bar>" by simp
  have b1: "1 \<le> bitlen \<bar>n\<bar>"
    using pos bitlen_eq_zero_iff[of "\<bar>n\<bar>"] bitlen_nonneg[of "\<bar>n\<bar>"] by linarith
  have b54: "bitlen \<bar>n\<bar> \<le> 54"
    using assms by (simp add: bitlen_le_iff_power)
  define e where "e = max (bitlen \<bar>n\<bar> - 53) (- 1074)"
  have e: "e = bitlen \<bar>n\<bar> - 53" using b1 by (simp add: e_def)
  have "\<exists>k. of_int n / pow2 e = of_int k"
  proof (cases "e \<le> 0")
    case True
    then have "pow2 (- e) = of_int (2 ^ nat (- e))" by (simp add: pow2_nat)
    moreover have "of_int n / pow2 e = of_int n * pow2 (- e)"
      by (simp add: pow2_neg)
    ultimately have "of_int n / pow2 e = of_int (n * 2 ^ nat (- e))"
      by simp
    then show ?thesis by blast
  next
    case False
    then have e1: "e = 1" using e b54 by simp
    then have "bitlen \<bar>n\<bar> = 54" using e by simp
    then have "2 ^ 53 \<le> \<bar>n\<bar>" using lo by simp
    then have "\<bar>n\<bar> = 2 ^ 53" using assms by simp
    then have "n = 2 ^ 53 \<or> n = - (2 ^ 53)" by linarith
    then have "of_int n / pow2 e = of_int (n div 2)"
      unfolding e1 by (auto simp: pow2_def)
    then show ?thesis by blast
  qed
  then obtain k where k: "of_int n / pow2 e = of_int k" by blast
  have "to_double (of_int n) = of_int (round_even (of_int n / pow2 e)) * pow2 e"
    using False by (simp add: to_double_def b e_def Let_def)
  also have "\<dots> = of_int k * pow2 e"
    by (simp only: k round_even_of_int)
  also have "\<dots> = (of_int n / pow2 e) * pow2 e"
    by (simp only: k)
  also have "\<dots> = of_int n"
    using pow2_pos[of e] by simp
  finally show ?thesis .
qed

text \<open>Rounding does not take a number from above \<open>2 ^ 53\<close> to below it.\<close>

lemma to_double_ge:
  assumes "2 ^ 53 \<le> x"
  shows "2 ^ 53 \<le> to_double x"
proof -
  have x1: "1 \<le> \<bar>x\<bar>" and xp: "0 < x" "\<bar>x\<bar> = x" using assms by auto
  have fl: "2 ^ 53 \<le> \<lfloor>x\<rfloor>" using assms by (simp add: le_floor_iff)
  moreover have "(0::int) < 2 ^ 53" by simp
  ultimately have fpos: "0 < \<lfloor>x\<rfloor>" by linarith
  define b where "b = bitlen \<lfloor>x\<rfloor>"
  have bin: "binade x = b" using x1 xp by (simp add: binade_def b_def)
  have b54: "54 \<le> b"
    unfolding b_def using fl by (simp add: bitlen_ge_iff_power)
  define e where "e = max (b - 53) (- 1074)"
  have e: "e = b - 53" and e1: "1 \<le> e" using b54 by (simp_all add: e_def)
  from bitlen_bounds[OF fpos] have "2 ^ nat (b - 1) \<le> \<lfloor>x\<rfloor>" by (simp add: b_def)
  then have "of_int (2 ^ nat (b - 1)) \<le> x" by (simp add: le_floor_iff)
  then have lo: "pow2 (b - 1) \<le> x" using b54 by (simp add: pow2_nat)
  have "pow2 (b - 1) = pow2 52 * pow2 e" unfolding e by (simp flip: pow2_add)
  then have "pow2 52 \<le> x / pow2 e"
    using lo pow2_pos[of e] by (simp add: field_simps)
  then have "of_int (2 ^ 52) \<le> x / pow2 e" by (simp add: pow2_nat)
  then have r: "2 ^ 52 \<le> round_even (x / pow2 e)" by (rule round_even_ge)
  have "to_double x = of_int (round_even (x / pow2 e)) * pow2 e"
    using xp by (simp add: to_double_def bin e_def Let_def)
  moreover have "of_int (2 ^ 52) * pow2 1 \<le> of_int (round_even (x / pow2 e)) * pow2 e"
    using r pow2_mono[OF e1] pow2_pos[of 1]
    by (intro mult_mono) (simp_all add: of_int_le_iff[symmetric] del: of_int_le_iff)
  ultimately show ?thesis by (simp add: pow2_def)
qed

text \<open>The rounding error of a quotient by a limit, for a dividend below \<open>2 ^ 53\<close>.\<close>

lemma to_double_err:
  assumes "0 < x" "x * of_int l < 2 ^ 53" "1 \<le> l" "l \<le> 100"
  shows "\<bar>to_double x - x\<bar> < 1 / rat_of_int l"
proof -
  have lpos: "0 < rat_of_int l" using assms(3) by simp
  have l100: "1 / 100 \<le> 1 / rat_of_int l"
    using assms(3,4) by (simp add: field_simps)
  define e where "e = max (binade x - 53) (- 1074)"
  have td: "to_double x = of_int (round_even (x / pow2 e)) * pow2 e"
    using assms(1) by (simp add: to_double_def e_def Let_def)
  have "to_double x - x = (of_int (round_even (x / pow2 e)) - x / pow2 e) * pow2 e"
    unfolding td using pow2_pos[of e] by (simp add: field_simps)
  then have "\<bar>to_double x - x\<bar> = \<bar>of_int (round_even (x / pow2 e)) - x / pow2 e\<bar> * pow2 e"
    using pow2_pos[of e] by (simp add: abs_mult)
  also have "\<dots> \<le> 1 / 2 * pow2 e"
    using round_even_err[of "x / pow2 e"] pow2_pos[of e]
    by (intro mult_mono) simp_all
  finally have err: "\<bar>to_double x - x\<bar> \<le> 1 / 2 * pow2 e" .
  show ?thesis
  proof (cases "1 \<le> x")
    case True
    then have x1: "1 \<le> \<bar>x\<bar>" by simp
    have "1 \<le> \<lfloor>x\<rfloor>" using True by (simp add: le_floor_iff)
    then have fpos: "0 < \<lfloor>x\<rfloor>" by linarith
    define b where "b = bitlen \<lfloor>x\<rfloor>"
    have bin: "binade x = b" using x1 assms(1) by (simp add: binade_def b_def)
    have b1: "1 \<le> b"
      unfolding b_def using fpos bitlen_eq_zero_iff[of "\<lfloor>x\<rfloor>"] bitlen_nonneg[of "\<lfloor>x\<rfloor>"]
      by linarith
    have eb: "e = b - 53" using b1 by (simp add: e_def bin)
    from bitlen_bounds[OF fpos] have "2 ^ nat (b - 1) \<le> \<lfloor>x\<rfloor>" by (simp add: b_def)
    then have "of_int (2 ^ nat (b - 1)) \<le> x" by (simp add: le_floor_iff)
    then have lo: "pow2 (b - 1) \<le> x" using b1 by (simp add: pow2_nat)
    have "1 / 2 * pow2 e = pow2 (b - 1) * pow2 (- 53)"
      unfolding eb by (simp add: pow2_def power_int_diff power_int_minus)
    also have "\<dots> \<le> x * pow2 (- 53)"
      using lo pow2_pos[of "- 53"] by (intro mult_right_mono) simp_all
    also have "\<dots> = x / 2 ^ 53" by (simp add: pow2_def power_int_minus field_simps)
    also have "\<dots> < 1 / rat_of_int l"
      using assms(2) lpos by (simp add: field_simps)
    finally show ?thesis using err by linarith
  next
    case False
    then have "binade x \<le> 1"
      using bitlen_nonneg[of "\<lceil>1 / \<bar>x\<bar>\<rceil> - 1"] assms(1) by (simp add: binade_def)
    then have e7: "e \<le> - 7" by (simp add: e_def)
    have "1 / 2 * pow2 e \<le> 1 / 2 * pow2 (- 7)"
      using pow2_mono[OF e7] by simp
    also have "\<dots> = 1 / 256" by (simp add: pow2_def power_int_minus)
    finally show ?thesis using err l100 by linarith
  qed
qed


lemma dbl_int_small: "\<bar>n\<bar> \<le> 2 ^ 53 \<Longrightarrow> dbl_int n = n"
  by (simp add: dbl_int_def to_double_int)

lemma dbl_overflow_small: "\<bar>n\<bar> \<le> 2 ^ 53 \<Longrightarrow> \<not> dbl_overflow n"
proof -
  assume a: "\<bar>n\<bar> \<le> 2 ^ 53"
  have "\<bar>n\<bar> < 2 ^ 1024" using a by (rule le_less_trans) simp
  then have "\<bar>rat_of_int n\<bar> < 2 ^ 1024"
    by (metis of_int_abs of_int_less_iff of_int_numeral of_int_power)
  then show ?thesis using a by (simp add: dbl_overflow_def to_double_int)
qed

lemma dbl_int_ge: "2 ^ 53 \<le> n \<Longrightarrow> 2 ^ 53 \<le> dbl_int n"
proof -
  assume "2 ^ 53 \<le> n"
  then have "(2::rat) ^ 53 \<le> of_int n"
    by (metis of_int_le_iff of_int_numeral of_int_power)
  from to_double_ge[OF this] show ?thesis
    by (simp add: dbl_int_def le_floor_iff)
qed

lemma round_even_nonpos:
  assumes "y \<le> 0"
  shows "round_even y \<le> 0"
proof -
  have f: "\<lfloor>y\<rfloor> \<le> 0" using assms by (simp add: floor_le_iff)
  show ?thesis
  proof (cases "y = of_int \<lfloor>y\<rfloor>")
    case True
    then show ?thesis using f by (simp add: round_even_def Let_def)
  next
    case False
    have "of_int \<lfloor>y\<rfloor> \<le> y" by simp
    then have "of_int \<lfloor>y\<rfloor> < y" using False by linarith
    then have "rat_of_int \<lfloor>y\<rfloor> < 0" using assms by linarith
    then have "\<lfloor>y\<rfloor> < 0" by (simp only: of_int_less_0_iff)
    then have "\<lfloor>y\<rfloor> + 1 \<le> 0" by linarith
    then show ?thesis using f by (simp add: round_even_def Let_def)
  qed
qed

lemma dbl_int_nonpos:
  assumes "n \<le> 0"
  shows "dbl_int n \<le> 0"
proof (cases "n = 0")
  case True
  then show ?thesis by (simp add: dbl_int_def to_double_def)
next
  case False
  define x where "x = rat_of_int n"
  define e where "e = max (binade x - 53) (- 1074)"
  have x: "x < 0" using assms False by (simp add: x_def)
  then have "x / pow2 e \<le> 0" using pow2_pos[of e] by (simp add: divide_le_0_iff)
  then have "round_even (x / pow2 e) \<le> 0" by (rule round_even_nonpos)
  then have "rat_of_int (round_even (x / pow2 e)) \<le> 0" by simp
  then have "of_int (round_even (x / pow2 e)) * pow2 e \<le> 0"
    using pow2_pos[of e] by (simp add: mult_le_0_iff)
  moreover have "to_double x = of_int (round_even (x / pow2 e)) * pow2 e"
    using x by (simp add: to_double_def e_def Let_def)
  ultimately have "to_double x \<le> 0" by simp
  then have "\<lfloor>to_double x\<rfloor> \<le> 0" by (simp add: floor_le_iff)
  then show ?thesis by (simp add: dbl_int_def x_def)
qed

text \<open>A double from 1 to below \<open>2 ^ 53\<close> comes from that integer only.\<close>

lemma dbl_int_exact:
  assumes "1 \<le> dbl_int n" "dbl_int n < 2 ^ 53"
  shows "dbl_int n = n"
proof -
  have "0 < n" using dbl_int_nonpos[of n] assms(1) by linarith
  moreover have "n < 2 ^ 53" using dbl_int_ge[of n] assms(2) by linarith
  ultimately have "\<bar>n\<bar> \<le> 2 ^ 53" by linarith
  then show ?thesis by (rule dbl_int_small)
qed

lemma dbl_int_pos: "1 \<le> dbl_int n \<Longrightarrow> 1 \<le> n"
  using dbl_int_nonpos[of n] by linarith

text \<open>\<open>page * limit < total\<close> in doubles is the exact comparison.\<close>

lemma has_more_exact:
  assumes "1 \<le> p" "1 \<le> l" "t < 2 ^ 53"
  shows "(dbl_int (dbl_int p * l) < t) = (p * l < t)"
proof (cases "p * l < t")
  case True
  have "p \<le> p * l" using assms(1,2) by (simp add: mult_le_cancel_left1)
  then have p: "\<bar>p\<bar> \<le> 2 ^ 53" using True assms(1,3) by linarith
  have "0 \<le> p * l" using assms(1,2) by simp
  then have pl: "\<bar>p * l\<bar> \<le> 2 ^ 53" using True assms(3) by linarith
  show ?thesis
    using True by (simp add: dbl_int_small[OF p] dbl_int_small[OF pl])
next
  case False
  have big: "t \<le> dbl_int (dbl_int p * l)"
  proof (cases "p * l \<le> 2 ^ 53")
    case True
    have "p \<le> p * l" using assms(1,2) by (simp add: mult_le_cancel_left1)
    then have p: "\<bar>p\<bar> \<le> 2 ^ 53" using True assms(1) by linarith
    have "0 \<le> p * l" using assms(1,2) by simp
    then have pl: "\<bar>p * l\<bar> \<le> 2 ^ 53" using True by linarith
    show ?thesis using False by (simp add: dbl_int_small[OF p] dbl_int_small[OF pl])
  next
    case False
    have "2 ^ 53 \<le> dbl_int p * l"
    proof (cases "p \<le> 2 ^ 53")
      case True
      then have "\<bar>p\<bar> \<le> 2 ^ 53" using assms(1) by linarith
      then show ?thesis using False by (simp add: dbl_int_small)
    next
      case False
      then have "2 ^ 53 \<le> dbl_int p" by (intro dbl_int_ge) linarith
      moreover have "dbl_int p \<le> dbl_int p * l"
        using assms(2) calculation by (simp add: mult_le_cancel_left1)
      ultimately show ?thesis by linarith
    qed
    from dbl_int_ge[OF this] show ?thesis using assms(3) by linarith
  qed
  then show ?thesis using False by auto
qed

text \<open>The same comparison with the page as the response reports it.\<close>

lemma has_more_reported:
  assumes "1 \<le> p" "1 \<le> l" "t < 2 ^ 53"
  shows "(dbl_int p * l < t) = (p * l < t)"
proof (cases "p \<le> 2 ^ 53")
  case True
  then have "\<bar>p\<bar> \<le> 2 ^ 53" using assms(1) by linarith
  then show ?thesis by (simp add: dbl_int_small)
next
  case False
  then have a: "2 ^ 53 \<le> dbl_int p" by (intro dbl_int_ge) linarith
  have "dbl_int p \<le> dbl_int p * l"
    using assms(2) a by (simp add: mult_le_cancel_left1)
  moreover have "p \<le> p * l" using assms(1,2) by (simp add: mult_le_cancel_left1)
  ultimately show ?thesis using a False assms(3) by linarith
qed

text \<open>\<open>Math.ceil(total / limit)\<close> in doubles is the exact ceiling below 2^53.\<close>

lemma math_ceil_div_exact:
  assumes "0 \<le> t" "t < 2 ^ 53" "1 \<le> l" "l \<le> 100"
  shows "math_ceil_div t l = \<lceil>rat_of_int t / rat_of_int l\<rceil>"
proof (cases "l dvd t")
  case True
  then obtain k where k: "t = l * k" by (auto simp: dvd_def)
  have x: "rat_of_int t / rat_of_int l = of_int k" using k assms(3) by simp
  have "0 \<le> k" using k assms(1,3) by (simp add: zero_le_mult_iff)
  moreover have "k \<le> l * k" using assms(3) calculation by (simp add: mult_le_cancel_right1)
  ultimately have "\<bar>k\<bar> \<le> 2 ^ 53" using k assms(2) by simp
  then show ?thesis
    unfolding math_ceil_div_def x by (simp add: to_double_int)
next
  case False
  define x where "x = rat_of_int t / rat_of_int l"
  define c where "c = \<lceil>x\<rceil>"
  have lpos: "0 < rat_of_int l" using assms(3) by simp
  have tpos: "0 < t" using False assms(1) by (cases "t = 0") auto
  have xpos: "0 < x" unfolding x_def using tpos lpos by simp
  have tl: "rat_of_int t = x * rat_of_int l" unfolding x_def using lpos by simp
  have "rat_of_int t < 2 ^ 53"
    using assms(2) by (metis of_int_less_iff of_int_numeral of_int_power)
  then have xl: "x * rat_of_int l < 2 ^ 53" by (simp only: tl)
  from to_double_err[OF xpos xl assms(3,4)]
  have e1: "x - 1 / rat_of_int l < to_double x" and e2: "to_double x < x + 1 / rat_of_int l"
    by linarith+
  have up: "x + 1 / rat_of_int l \<le> of_int c"
  proof -
    have "x \<le> of_int c" unfolding c_def by simp
    then have "rat_of_int t \<le> rat_of_int (c * l)" unfolding tl using lpos by simp
    then have "t \<le> c * l" by (simp only: of_int_le_iff)
    moreover have "t \<noteq> c * l" using False by auto
    ultimately have "t + 1 \<le> c * l" by simp
    then have "rat_of_int (t + 1) \<le> rat_of_int (c * l)" by (simp only: of_int_le_iff)
    then have "rat_of_int (t + 1) / rat_of_int l \<le> rat_of_int (c * l) / rat_of_int l"
      using lpos by (simp only: divide_le_cancel) simp
    moreover have "rat_of_int (t + 1) / rat_of_int l = x + 1 / rat_of_int l"
      unfolding x_def by (simp add: add_divide_distrib)
    moreover have "rat_of_int (c * l) / rat_of_int l = of_int c" using lpos by simp
    ultimately show ?thesis by simp
  qed
  have lo: "of_int (c - 1) + 1 / rat_of_int l \<le> x"
  proof -
    have "of_int (c - 1) < x" unfolding c_def by simp linarith
    then have "rat_of_int ((c - 1) * l) < rat_of_int t" unfolding tl using lpos by simp
    then have "(c - 1) * l < t" by (simp only: of_int_less_iff)
    then have "(c - 1) * l + 1 \<le> t" by simp
    then have "rat_of_int ((c - 1) * l + 1) \<le> rat_of_int t" by (simp only: of_int_le_iff)
    then have "rat_of_int ((c - 1) * l + 1) / rat_of_int l \<le> rat_of_int t / rat_of_int l"
      using lpos by (simp only: divide_le_cancel) simp
    moreover have "rat_of_int ((c - 1) * l + 1) / rat_of_int l = of_int (c - 1) + 1 / rat_of_int l"
      using lpos by (simp add: add_divide_distrib)
    ultimately show ?thesis unfolding x_def by simp
  qed
  have "of_int (c - 1) < to_double x" using e1 lo by linarith
  moreover have "to_double x \<le> of_int c" using e2 up by linarith
  ultimately have "\<lceil>to_double x\<rceil> = c" by (simp add: ceiling_eq_iff)
  then show ?thesis by (simp add: math_ceil_div_def x_def c_def)
qed

lemma math_ceil_div_code:
  assumes "0 \<le> t" "t < 2 ^ 53" "1 \<le> l" "l \<le> 100"
  shows "math_ceil_div t l = - ((- t) div l)"
  by (simp add: math_ceil_div_exact[OF assms] ceiling_divide_eq_div)

text \<open>The integer \<open>2 ^ 53 + 1\<close> is not a double: it is rounded to \<open>2 ^ 53\<close>.\<close>

lemma bitlen_example: "bitlen 9007199254740993 = 54"
proof -
  have "bitlen 9007199254740993 \<le> 54" by (simp add: bitlen_le_iff_power)
  moreover have "54 \<le> bitlen 9007199254740993" by (simp add: bitlen_ge_iff_power)
  ultimately show ?thesis by simp
qed

lemma to_double_example: "to_double 9007199254740993 = 9007199254740992"
proof -
  have "\<lfloor>\<bar>9007199254740993 :: rat\<bar>\<rfloor> = 9007199254740993" by simp
  then have b: "binade 9007199254740993 = 54"
    unfolding binade_def by (simp add: bitlen_example)
  have f: "\<lfloor>9007199254740993 / 2 :: rat\<rfloor> = 4503599627370496"
    by (rule floor_unique) simp_all
  have r: "round_even (9007199254740993 / 2) = 4503599627370496"
    by (simp add: round_even_def Let_def f)
  show ?thesis
    by (simp add: to_double_def b Let_def pow2_def r)
qed

lemma dbl_int_example:
  "dbl_int 9007199254740993 = 9007199254740992" "\<not> dbl_overflow 9007199254740993"
  by (simp_all add: dbl_int_def dbl_overflow_def to_double_example)

section \<open>Evaluation\<close>

lemma to_lower_code:
  "to_lower c =
     (if c = CHR ''A'' then CHR ''a'' else if c = CHR ''B'' then CHR ''b''
      else if c = CHR ''C'' then CHR ''c'' else if c = CHR ''D'' then CHR ''d''
      else if c = CHR ''E'' then CHR ''e'' else if c = CHR ''F'' then CHR ''f''
      else if c = CHR ''G'' then CHR ''g'' else if c = CHR ''H'' then CHR ''h''
      else if c = CHR ''I'' then CHR ''i'' else if c = CHR ''J'' then CHR ''j''
      else if c = CHR ''K'' then CHR ''k'' else if c = CHR ''L'' then CHR ''l''
      else if c = CHR ''M'' then CHR ''m'' else if c = CHR ''N'' then CHR ''n''
      else if c = CHR ''O'' then CHR ''o'' else if c = CHR ''P'' then CHR ''p''
      else if c = CHR ''Q'' then CHR ''q'' else if c = CHR ''R'' then CHR ''r''
      else if c = CHR ''S'' then CHR ''s'' else if c = CHR ''T'' then CHR ''t''
      else if c = CHR ''U'' then CHR ''u'' else if c = CHR ''V'' then CHR ''v''
      else if c = CHR ''W'' then CHR ''w'' else if c = CHR ''X'' then CHR ''x''
      else if c = CHR ''Y'' then CHR ''y'' else if c = CHR ''Z'' then CHR ''z''
      else if c = CHR 0xC0 then CHR 0xE0 else if c = CHR 0xC1 then CHR 0xE1
      else if c = CHR 0xC2 then CHR 0xE2 else if c = CHR 0xC3 then CHR 0xE3
      else if c = CHR 0xC4 then CHR 0xE4 else if c = CHR 0xC5 then CHR 0xE5
      else if c = CHR 0xC6 then CHR 0xE6 else if c = CHR 0xC7 then CHR 0xE7
      else if c = CHR 0xC8 then CHR 0xE8 else if c = CHR 0xC9 then CHR 0xE9
      else if c = CHR 0xCA then CHR 0xEA else if c = CHR 0xCB then CHR 0xEB
      else if c = CHR 0xCC then CHR 0xEC else if c = CHR 0xCD then CHR 0xED
      else if c = CHR 0xCE then CHR 0xEE else if c = CHR 0xCF then CHR 0xEF
      else if c = CHR 0xD0 then CHR 0xF0 else if c = CHR 0xD1 then CHR 0xF1
      else if c = CHR 0xD2 then CHR 0xF2 else if c = CHR 0xD3 then CHR 0xF3
      else if c = CHR 0xD4 then CHR 0xF4 else if c = CHR 0xD5 then CHR 0xF5
      else if c = CHR 0xD6 then CHR 0xF6 else if c = CHR 0xD8 then CHR 0xF8
      else if c = CHR 0xD9 then CHR 0xF9 else if c = CHR 0xDA then CHR 0xFA
      else if c = CHR 0xDB then CHR 0xFB else if c = CHR 0xDC then CHR 0xFC
      else if c = CHR 0xDD then CHR 0xFD else if c = CHR 0xDE then CHR 0xFE else c)"
  by (simp add: to_lower_def capitals_def smalls_def)

lemma env0_sel:
  "db_connects env0" "\<not> reads_fail env0" "\<not> writes_fail env0" "\<not> upload_fails env0"
  "\<not> destroy_fails env0" "object_id env0 = ''65a000000000000000000002''"
  "upload_name env0 = ''blog_1_2''"
  "upload_url env0
     = ''https://res.cloudinary.com/demo/image/upload/v1/blog-uploads/blog_1_2.png''"
  "sort_docs env0 = (\<lambda>s ds. ds)"
  "regex_engine env0 ''o+'' = Some has_o" "regex_engine env0 ''('' = None"
  by (simp_all add: env0_def)

lemma world0_sel:
  "docs world0 = [post0]" "blobs world0 = [''blog-uploads/blog_0_0'']" "hits world0 = []"
  "console world0 = []" "effects world0 = []"
  by (simp_all add: world0_def)

lemma world25_sel:
  "docs world25 = map numbered
     [''00'', ''01'', ''02'', ''03'', ''04'', ''05'', ''06'', ''07'', ''08'', ''09'',
      ''10'', ''11'', ''12'', ''13'', ''14'', ''15'', ''16'', ''17'', ''18'', ''19'',
      ''20'', ''21'', ''22'', ''23'', ''24'']"
  "blobs world25 = [''blog-uploads/blog_0_0'']" "hits world25 = []"
  "console world25 = []" "effects world25 = []"
  by (simp_all add: world25_def world0_def)

lemma req0_sel:
  "ip req0 = ''10.0.0.1''" "meth req0 = GET" "resource req0 = PostsRoot" "authorized req0"
  "q_page req0 = None" "q_limit req0 = None" "q_search req0 = None" "q_sort req0 = None"
  "body_heading req0 = None" "body_description req0 = None" "image_part req0 = None"
  "file_path req0 = None" "verrors req0 = []"
  by (simp_all add: req0_def)

lemma post0_sel:
  "post_id post0 = id0" "heading post0 = ''Hello World''"
  "description post0 = ''A first post body''" "image post0 = Some url0"
  by (simp_all add: post0_def)

lemma hydrate_id: "image p \<noteq> None \<Longrightarrow> hydrate p = p"
  by (auto simp: hydrate_def)

lemmas run_defs = run_chain.simps app_def admission_def posts_router_def route_def
  connection_def rateLimit_def
  auth_def upload_single_def validators_create_def validators_update_def validators_delete_def
  validators_getById_def validators_list_def validate_def record_errors_def
  apiLimiter_def uploadLimiter_def authLimiter_def
  update_post_def create_post_def delete_post_def get_post_def get_posts_def
  findById_def findByIdAndUpdate_def findByIdAndDelete_def save_new_def build_update_def
  deleteImage_def deleteImage_try_def destroy_def cast_object_id_def cast_data_def apply_update_def
  heading_errors_def description_errors_def heading_required_def heading_length_def
  description_required_def description_length_def id_errors_def isMongoId_def isHexadecimal_def
  hex_word_def is_hex_digit_def toLowerCase_def to_lower_code trim_def is_space_def str_of_def
  truthy_def fileFilter_def fileSize_def allowedTypes_def test_words_def extname_def
  basename_part_def sublist_code format_errors_def log_error_def error_handler_def exn_message_def
  find_docs_def parse_regex_def other_meta_def isInt_def int_syntax_def strip_sign_def
  to_number_def parse_int_def digit_val_def is_digit_def dbl_int_small dbl_overflow_small
  math_ceil_div_code hydrate_id public_id_of_def has_o_def Let_def
  env0_sel world0_sel req0_sel post0_sel id0_def url0_def png_def

section \<open>Middleware, step by step\<close>

lemma run_chain_Nil_Next: "(run_chain [] r w = (Next r', w')) = (r' = r \<and> w' = w)"
  by auto

lemma run_chain_Nil_Respond: "run_chain [] r w \<noteq> (Respond resp, w')"
  by simp

lemma run_chain_Cons_Next:
  "(run_chain (m # ms) r w = (Next r', w'))
     = (\<exists>r1 w1. m r w = (Next r1, w1) \<and> run_chain ms r1 w1 = (Next r', w'))"
  by (auto split: prod.splits flow.splits)

lemma run_chain_Cons_Respond:
  "(run_chain (m # ms) r w = (Respond resp, w'))
     = (m r w = (Respond resp, w')
        \<or> (\<exists>r1 w1. m r w = (Next r1, w1) \<and> run_chain ms r1 w1 = (Respond resp, w')))"
  by (auto split: prod.splits flow.splits)

lemmas run_chain_iff =
  run_chain_Nil_Next run_chain_Nil_Respond run_chain_Cons_Next run_chain_Cons_Respond

lemma route_iff:
  "(route stack handler r w = (resp, w'))
     = (run_chain stack r w = (Respond resp, w')
        \<or> (\<exists>r1 w1. run_chain stack r w = (Next r1, w1) \<and> handler r1 w1 = (resp, w')))"
  unfolding route_def by (auto split: prod.splits flow.splits)

lemma auth_Next: "(auth r w = (Next r1, w1)) = (authorized r \<and> r1 = r \<and> w1 = w)"
  unfolding auth_def by auto

lemma auth_Respond:
  "(auth r w = (Respond resp, w1))
     = (\<not> authorized r \<and> resp = \<lparr>status = 401, body = Unauthenticated\<rparr> \<and> w1 = w)"
  unfolding auth_def by auto

lemma rateLimit_Next:
  "(rateLimit l r w = (Next r1, w1))
     = (count_list (hits w) (cls l, ip r) < max_hits l \<and> r1 = r
        \<and> w1 = w\<lparr>hits := hits w @ [(cls l, ip r)]\<rparr>)"
  unfolding rateLimit_def by (auto simp: Let_def)

lemma rateLimit_Respond:
  "(rateLimit l r w = (Respond resp, w1))
     = (max_hits l \<le> count_list (hits w) (cls l, ip r)
        \<and> resp = \<lparr>status = 429, body = Failure (message l)\<rparr>
        \<and> w1 = w\<lparr>hits := hits w @ [(cls l, ip r)]\<rparr>)"
  unfolding rateLimit_def by (auto simp: Let_def)

lemma connection_Next:
  "(connection e r w = (Next r1, w1)) = (db_connects e \<and> r1 = r \<and> w1 = w)"
  unfolding connection_def by auto

lemma connection_Respond:
  "(connection e r w = (Respond resp, w1))
     = (\<not> db_connects e
        \<and> resp = \<lparr>status = 503, body = Failure ''Database connection failed''\<rparr> \<and> w1 = w)"
  unfolding connection_def by auto

lemma validate_Next: "(validate r w = (Next r1, w1)) = (verrors r = [] \<and> r1 = r \<and> w1 = w)"
  unfolding validate_def by auto

lemma validate_Respond:
  "(validate r w = (Respond resp, w1))
     = (verrors r \<noteq> []
        \<and> resp = \<lparr>status = 400, body = ValidationFailed (format_errors (verrors r))\<rparr>
        \<and> w1 = w)"
  unfolding validate_def by auto

lemma upload_single_Next:
  "(upload_single e r w = (Next r1, w1))
     = ((image_part r = None \<and> r1 = r \<and> w1 = w)
        \<or> (\<exists>f. image_part r = Some f \<and> fileFilter f \<and> size_bytes f < fileSize
              \<and> \<not> upload_fails e
              \<and> r1 = r\<lparr>file_path := Some (upload_url e)\<rparr> \<and> w1 = stored e w))"
  unfolding upload_single_def stored_def by (auto simp: Let_def split: option.splits)

lemma upload_single_Respond:
  "upload_single e r w = (Respond resp, w1)
     \<Longrightarrow> docs w1 = docs w \<and> hits w1 = hits w \<and> (\<exists>m. body resp = Failure m)
         \<and> status resp = 500"
  unfolding upload_single_def error_handler_def destroy_def
  by (auto simp: Let_def split: option.splits if_splits)

lemma validators_update_Next:
  "(validators_update i r w = (Next r1, w1))
     = (r1 = record_errors
               (id_errors i
                @ (case map_option trim (body_heading r) of
                     None \<Rightarrow> [] | Some v \<Rightarrow> heading_length v)
                @ (case map_option trim (body_description r) of
                     None \<Rightarrow> [] | Some v \<Rightarrow> description_length v))
               (r\<lparr>body_heading := map_option trim (body_heading r),
                  body_description := map_option trim (body_description r)\<rparr>)
        \<and> w1 = w)"
  unfolding validators_update_def by (auto simp: Let_def)

lemma validators_update_Respond: "validators_update i r w \<noteq> (Respond resp, w1)"
  unfolding validators_update_def by (auto simp: Let_def)

lemma validators_create_Next:
  "(validators_create r w = (Next r1, w1))
     = (r1 = record_errors
               (heading_required (trim (str_of (body_heading r)))
                @ heading_length (trim (str_of (body_heading r)))
                @ description_required (trim (str_of (body_description r)))
                @ description_length (trim (str_of (body_description r))))
               (r\<lparr>body_heading := Some (trim (str_of (body_heading r))),
                  body_description := Some (trim (str_of (body_description r)))\<rparr>)
        \<and> w1 = w)"
  unfolding validators_create_def by (auto simp: Let_def)

lemma validators_create_Respond: "validators_create r w \<noteq> (Respond resp, w1)"
  unfolding validators_create_def by (auto simp: Let_def)

lemma validators_delete_Next:
  "(validators_delete i r w = (Next r1, w1)) = (r1 = record_errors (id_errors i) r \<and> w1 = w)"
  unfolding validators_delete_def by auto

lemma validators_delete_Respond: "validators_delete i r w \<noteq> (Respond resp, w1)"
  unfolding validators_delete_def by auto

lemma validators_getById_Next:
  "(validators_getById i r w = (Next r1, w1)) = (r1 = record_errors (id_errors i) r \<and> w1 = w)"
  unfolding validators_getById_def by auto

lemma validators_getById_Respond: "validators_getById i r w \<noteq> (Respond resp, w1)"
  unfolding validators_getById_def by auto

lemma validators_list_Next:
  "(validators_list r w = (Next r1, w1))
     = (r1 = record_errors
               ((case q_page r of None \<Rightarrow> []
                 | Some v \<Rightarrow> if isInt (Some 1) None v then []
                             else [(''page'', ''Page must be a positive integer'')])
                @ (case q_limit r of None \<Rightarrow> []
                   | Some v \<Rightarrow> if isInt (Some 1) (Some 100) v then []
                               else [(''limit'', ''Limit must be between 1 and 100'')])
                @ (case map_option trim (q_search r) of None \<Rightarrow> []
                   | Some v \<Rightarrow> if length v \<le> 100 then []
                               else [(''search'', ''Search query too long'')]))
               (r\<lparr>q_search := map_option trim (q_search r)\<rparr>)
        \<and> w1 = w)"
  unfolding validators_list_def by (auto simp: Let_def)

lemma validators_list_Respond: "validators_list r w \<noteq> (Respond resp, w1)"
  unfolding validators_list_def by (auto simp: Let_def)

lemmas middleware_iff = auth_Next auth_Respond rateLimit_Next rateLimit_Respond
  connection_Next connection_Respond validate_Next validate_Respond upload_single_Next
  validators_update_Next validators_update_Respond validators_create_Next
  validators_create_Respond validators_delete_Next validators_delete_Respond
  validators_getById_Next validators_getById_Respond validators_list_Next
  validators_list_Respond

declare run_chain.simps [simp del]

lemma admission_Next:
  "resource r \<noteq> AuthRoute \<Longrightarrow>
   (admission e r w = (Next r1, w1))
     = (db_connects e \<and> count_list (hits w) (General, ip r) < 100 \<and> r1 = r
        \<and> w1 = w\<lparr>hits := hits w @ [(General, ip r)]\<rparr>)"
  unfolding admission_def
  by (cases "resource r") (auto simp: run_chain_iff middleware_iff apiLimiter_def)

lemma admission_Respond:
  "resource r \<noteq> AuthRoute \<Longrightarrow>
   (admission e r w = (Respond resp, w1))
     = ((\<not> db_connects e
          \<and> resp = \<lparr>status = 503, body = Failure ''Database connection failed''\<rparr> \<and> w1 = w)
        \<or> (db_connects e \<and> 100 \<le> count_list (hits w) (General, ip r)
            \<and> resp = \<lparr>status = 429, body = Failure (message apiLimiter)\<rparr>
            \<and> w1 = w\<lparr>hits := hits w @ [(General, ip r)]\<rparr>))"
  unfolding admission_def
  by (cases "resource r") (auto simp: run_chain_iff middleware_iff apiLimiter_def)

lemma stored_simps [simp]:
  "docs (stored e w) = docs w" "hits (stored e w) = hits w"
  "blobs (stored e w) = blobs w @ [''blog-uploads/'' @ upload_name e]"
  "effects (stored e w) = effects w @ [AssetUpload (''blog-uploads/'' @ upload_name e)]"
  "console (stored e w) = console w"
  by (simp_all add: stored_def)

lemma log_error_simps [simp]:
  "docs (log_error m w) = docs w" "hits (log_error m w) = hits w"
  "blobs (log_error m w) = blobs w" "effects (log_error m w) = effects w"
  "console (log_error m w) = console w @ [m]"
  by (simp_all add: log_error_def)

lemma record_errors_simps [simp]:
  "verrors (record_errors errs r) = verrors r @ errs"
  "body_heading (record_errors errs r) = body_heading r"
  "body_description (record_errors errs r) = body_description r"
  "file_path (record_errors errs r) = file_path r"
  "image_part (record_errors errs r) = image_part r"
  "ip (record_errors errs r) = ip r"
  "meth (record_errors errs r) = meth r"
  "resource (record_errors errs r) = resource r"
  "q_page (record_errors errs r) = q_page r"
  "q_limit (record_errors errs r) = q_limit r"
  "q_search (record_errors errs r) = q_search r"
  "q_sort (record_errors errs r) = q_sort r"
  "authorized (record_errors errs r) = authorized r"
  by (simp_all add: record_errors_def)

section \<open>The handlers' store calls\<close>

lemma deleteImage_eq:
  "deleteImage e u w =
     Inr (if u = [] then w
          else if destroy_fails e
          then w\<lparr>console := console w @ [''Error deleting image: '' @ exn_message CloudError]\<rparr>
          else w\<lparr>blobs := removeAll (public_id_of u) (blobs w),
                 effects := effects w @ [AssetDestroy (public_id_of u)],
                 console := console w @ [''Deleted image: '' @ public_id_of u]\<rparr>)"
  unfolding deleteImage_def deleteImage_try_def destroy_def public_id_of_def
  by (simp add: Let_def)

lemma cleaned_simps [simp]:
  "docs (cleaned e img w) = docs w" "hits (cleaned e img w) = hits w"
  by (simp_all add: cleaned_def)

lemma hydrate_simps [simp]:
  "post_id (hydrate p) = post_id p" "heading (hydrate p) = heading p"
  "description (hydrate p) = description p"
  by (simp_all add: hydrate_def)

lemma image_hydrate: "image (hydrate p) = Some (str_of (image p))"
  by (simp add: hydrate_def str_of_def)

lemma cleaned_hydrate [simp]: "cleaned e (image (hydrate p)) w = cleaned e (image p) w"
  by (cases "image p") (simp_all add: image_hydrate cleaned_def truthy_def str_of_def)

lemma cleanup_eq:
  "(if truthy img then deleteImage e (str_of img) w else Inr w) = Inr (cleaned e img w)"
  by (auto simp: deleteImage_eq cleaned_def truthy_def str_of_def split: option.splits)

lemma build_update_eq:
  "build_update e old r w =
     Inr (update_of r, if file_path r = None then w else cleaned e (image old) w)"
  unfolding build_update_def update_of_def Let_def
  by (cases "file_path r") (simp_all add: cleanup_eq split del: if_split)

lemma find_replace_first:
  "find (\<lambda>p. post_id p = oid) ds = Some old \<Longrightarrow> post_id new = oid
     \<Longrightarrow> find (\<lambda>p. post_id p = oid) (replace_first oid new ds) = Some new"
  by (induction ds) (auto split: if_splits)

lemma find_post_id: "find (\<lambda>p. post_id p = oid) ds = Some old \<Longrightarrow> post_id old = oid"
  by (induction ds) (auto split: if_splits)

lemma post_id_apply_update [simp]: "post_id (apply_update u p) = post_id p"
  by (simp add: apply_update_def)

lemma update_post_result:
  assumes "update_post e i r w = (resp, w')" "cast_object_id i = Some oid"
    "find (\<lambda>p. post_id p = oid) (docs w) = Some old"
  shows "(docs w' = docs w \<and> (\<forall>p. body resp \<noteq> PostUpdated p) \<and> status resp \<noteq> 200)
       \<or> (docs w' = replace_first oid (apply_update (cast_data (update_of r)) old) (docs w)
           \<and> resp = \<lparr>status = 200,
                      body = PostUpdated
                        (Some (hydrate (apply_update (cast_data (update_of r)) old)))\<rparr>)"
  using assms unfolding update_post_def findById_def findByIdAndUpdate_def
  by (auto simp: build_update_eq Let_def split: if_splits)

lemma find_remove_first_length:
  "find (\<lambda>p. post_id p = oid) ds = Some old \<Longrightarrow> length (remove_first oid ds) < length ds"
  by (induction ds) (auto split: if_splits)

lemma update_post_ok:
  assumes "update_post e i r w = (resp, w')" "status resp = 200" "cast_object_id i = Some oid"
    "find (\<lambda>p. post_id p = oid) (docs w) = Some old"
  shows "w' = (if file_path r = None then w else cleaned e (image old) w)
               \<lparr>docs := replace_first oid (apply_update (cast_data (update_of r)) old) (docs w),
                effects := effects (if file_path r = None then w else cleaned e (image old) w)
                           @ [RecordUpdate oid]\<rparr>"
  using assms unfolding update_post_def findById_def findByIdAndUpdate_def
  by (auto simp: build_update_eq Let_def split: if_splits)

lemma delete_post_ok:
  assumes "delete_post e i r w = (resp, w')" "status resp = 200" "cast_object_id i = Some oid"
    "find (\<lambda>p. post_id p = oid) (docs w) = Some old"
  shows "w' = (cleaned e (image old) w)
               \<lparr>docs := remove_first oid (docs w),
                effects := effects (cleaned e (image old) w) @ [RecordDelete oid]\<rparr>"
  using assms unfolding delete_post_def findById_def findByIdAndDelete_def
  by (auto simp: cleanup_eq split: if_splits)

lemma update_post_body: "update_post e i r w = (resp, w') \<Longrightarrow> body resp \<noteq> ValidationFailed m"
  unfolding update_post_def findById_def findByIdAndUpdate_def
  by (auto simp: build_update_eq Let_def split: if_splits option.splits)

lemma delete_post_body: "delete_post e i r w = (resp, w') \<Longrightarrow> body resp \<noteq> ValidationFailed m"
  unfolding delete_post_def findById_def findByIdAndDelete_def
  by (auto simp: cleanup_eq split: if_splits option.splits)

lemma create_post_body: "create_post e r w = (resp, w') \<Longrightarrow> body resp \<noteq> ValidationFailed m"
  unfolding create_post_def save_new_def
  by (auto simp: Let_def split: if_splits option.splits)

lemma effects_cleaned:
  "effects (cleaned e img w)
     = effects w @ (if truthy img \<and> \<not> destroy_fails e then [AssetDestroy (public_id_of (str_of img))]
                    else [])"
  by (simp add: cleaned_def)

lemma blobs_cleaned:
  "blobs (cleaned e img w)
     = (if truthy img \<and> \<not> destroy_fails e then removeAll (public_id_of (str_of img)) (blobs w)
        else blobs w)"
  by (simp add: cleaned_def)

lemma update_post_hits: "update_post e i r w = (resp, w') \<Longrightarrow> hits w' = hits w"
  unfolding update_post_def findById_def findByIdAndUpdate_def
  by (auto simp: build_update_eq Let_def split: if_splits option.splits)

lemma delete_post_hits: "delete_post e i r w = (resp, w') \<Longrightarrow> hits w' = hits w"
  unfolding delete_post_def findById_def findByIdAndDelete_def
  by (auto simp: cleanup_eq split: if_splits option.splits)

lemma create_post_hits: "create_post e r w = (resp, w') \<Longrightarrow> hits w' = hits w"
  unfolding create_post_def save_new_def
  by (auto simp: Let_def split: if_splits option.splits)

lemma get_post_hits: "get_post e i r w = (resp, w') \<Longrightarrow> hits w' = hits w"
  unfolding get_post_def findById_def
  by (auto split: if_splits option.splits)

lemma get_posts_hits: "get_posts e r w = Some (resp, w') \<Longrightarrow> hits w' = hits w"
  unfolding get_posts_def
  by (auto simp: Let_def split: if_splits option.splits jsnum.splits sum.splits)

lemma posts_router_hits:
  assumes "posts_router e r w = Some (resp, w')"
  shows "hits w' = hits w @ (if uses_upload_limiter r \<and> authorized r then [(Upload, ip r)] else [])"
  using assms unfolding posts_router_def uses_upload_limiter_def
  by (cases "meth r"; cases "resource r")
     (auto simp: route_iff run_chain_iff middleware_iff not_found_def uploadLimiter_def
        split: prod.splits flow.splits
        dest!: upload_single_Respond
        dest: update_post_hits delete_post_hits create_post_hits get_post_hits get_posts_hits)

lemma set_replace_first: "set (replace_first oid new ds) \<subseteq> insert new (set ds)"
  by (induction ds) auto

lemma set_remove_first: "set (remove_first oid ds) \<subseteq> set ds"
  by (induction ds) auto

lemma find_in_set: "find P ds = Some x \<Longrightarrow> x \<in> set ds"
  by (induction ds) (auto split: if_splits)

lemma create_post_result:
  assumes "create_post e r w = (resp, w')"
  shows "(docs w' = docs w \<and> (\<forall>p. body resp \<noteq> PostCreated p))
       \<or> (\<exists>p. docs w' = docs w @ [p] \<and> resp = \<lparr>status = 201, body = PostCreated p\<rparr>
               \<and> image p = Some (case file_path r of None \<Rightarrow> [] | Some u \<Rightarrow> u))"
  using assms unfolding create_post_def save_new_def
  by (auto simp: Let_def cast_data_def split: if_splits option.splits)

lemma in_remove_first: "x \<in> set (remove_first oid ds) \<Longrightarrow> x \<in> set ds"
  using set_remove_first by blast

lemma update_post_absent:
  assumes "update_post e i r w = (resp, w')"
    "cast_object_id i = None
     \<or> (\<exists>oid. cast_object_id i = Some oid \<and> find (\<lambda>p. post_id p = oid) (docs w) = None)"
  shows "docs w' = docs w"
  using assms unfolding update_post_def findById_def findByIdAndUpdate_def
  by (auto simp: build_update_eq Let_def split: if_splits option.splits)

lemma update_post_not_created:
  "update_post e i r w = (resp, w') \<Longrightarrow> body resp \<noteq> PostCreated p"
  unfolding update_post_def findById_def findByIdAndUpdate_def
  by (auto simp: build_update_eq Let_def split: if_splits option.splits)

lemma update_post_images:
  assumes "update_post e i r w = (resp, w')" "\<forall>q\<in>set (docs w). image q \<noteq> None"
  shows "\<forall>q\<in>set (docs w'). image q \<noteq> None"
proof (cases "cast_object_id i")
  case None
  then show ?thesis using update_post_absent[OF assms(1)] assms(2) by simp
next
  case (Some oid)
  show ?thesis
  proof (cases "find (\<lambda>p. post_id p = oid) (docs w)")
    case None
    then show ?thesis using update_post_absent[OF assms(1)] Some assms(2) by simp
  next
    case (Some old)
    have "image old \<noteq> None" using find_in_set[OF Some] assms(2) by blast
    then have new: "image (apply_update (cast_data (update_of r)) old) \<noteq> None"
      by (simp add: apply_update_def split: option.splits)
    from update_post_result[OF assms(1) \<open>cast_object_id i = Some oid\<close> Some]
    show ?thesis
    proof
      assume "docs w' = docs w \<and> (\<forall>p. body resp \<noteq> PostUpdated p) \<and> status resp \<noteq> 200"
      then show ?thesis using assms(2) by simp
    next
      assume "docs w' = replace_first oid (apply_update (cast_data (update_of r)) old) (docs w)
           \<and> resp = \<lparr>status = 200,
                      body = PostUpdated
                        (Some (hydrate (apply_update (cast_data (update_of r)) old)))\<rparr>"
      then show ?thesis
        using set_replace_first[of oid "apply_update (cast_data (update_of r)) old" "docs w"]
          new assms(2)
        by auto
    qed
  qed
qed

lemma delete_post_docs:
  assumes "delete_post e i r w = (resp, w')"
  shows "set (docs w') \<subseteq> set (docs w) \<and> (\<forall>p. body resp \<noteq> PostCreated p)"
  using assms unfolding delete_post_def findById_def findByIdAndDelete_def
  by (auto simp: cleanup_eq split: if_splits option.splits dest: in_remove_first)

lemma get_post_docs:
  "get_post e i r w = (resp, w') \<Longrightarrow> docs w' = docs w \<and> (\<forall>p. body resp \<noteq> PostCreated p)"
  unfolding get_post_def findById_def
  by (auto split: if_splits option.splits)

lemma get_posts_docs:
  "get_posts e r w = Some (resp, w') \<Longrightarrow> docs w' = docs w \<and> (\<forall>p. body resp \<noteq> PostCreated p)"
  unfolding get_posts_def
  by (auto simp: Let_def split: if_splits option.splits jsnum.splits sum.splits)

section \<open>Every request to /api/posts is answered\<close>

lemma isInt_page:
  "isInt (Some 1) None v \<Longrightarrow> to_number v = PosInf \<or> (\<exists>p. to_number v = Fin p \<and> 1 \<le> p)"
  by (cases "to_number v") (auto simp: isInt_def)

lemma isInt_limit:
  "isInt (Some 1) (Some 100) v \<Longrightarrow> \<exists>l. to_number v = Fin l \<and> 1 \<le> l \<and> l \<le> 100"
  by (cases "to_number v") (auto simp: isInt_def)

lemma get_posts_total:
  assumes "case q_page r of None \<Rightarrow> True | Some v \<Rightarrow> isInt (Some 1) None v"
    "case q_limit r of None \<Rightarrow> True | Some v \<Rightarrow> isInt (Some 1) (Some 100) v"
  shows "\<exists>resp w'. get_posts e r w = Some (resp, w')"
proof -
  obtain l where l: "(case q_limit r of None \<Rightarrow> Fin 10 | Some v \<Rightarrow> to_number v) = Fin l"
    "1 \<le> l" "l \<le> 100"
    using assms(2) by (cases "q_limit r") (auto dest: isInt_limit)
  have p: "(case q_page r of None \<Rightarrow> Fin 1 | Some v \<Rightarrow> to_number v) = PosInf
     \<or> (\<exists>p. (case q_page r of None \<Rightarrow> Fin 1 | Some v \<Rightarrow> to_number v) = Fin p \<and> 1 \<le> p)"
    using assms(1) by (cases "q_page r") (auto dest: isInt_page)
  then show ?thesis
  proof
    assume "(case q_page r of None \<Rightarrow> Fin 1 | Some v \<Rightarrow> to_number v) = PosInf"
    then show ?thesis using l by (simp add: get_posts_def Let_def)
  next
    assume "\<exists>p. (case q_page r of None \<Rightarrow> Fin 1 | Some v \<Rightarrow> to_number v) = Fin p \<and> 1 \<le> p"
    then obtain p where "(case q_page r of None \<Rightarrow> Fin 1 | Some v \<Rightarrow> to_number v) = Fin p"
      "1 \<le> p" by blast
    then show ?thesis using l by (simp add: get_posts_def Let_def split: sum.splits)
  qed
qed

lemma list_chain:
  "run_chain [validators_list, validate] r w = (Next r1, w1)
     \<Longrightarrow> (case q_page r1 of None \<Rightarrow> True | Some v \<Rightarrow> isInt (Some 1) None v)
         \<and> (case q_limit r1 of None \<Rightarrow> True | Some v \<Rightarrow> isInt (Some 1) (Some 100) v)"
  by (auto simp: run_chain_iff middleware_iff split: option.splits if_splits)

lemma posts_router_total: "\<exists>resp w'. posts_router e r w = Some (resp, w')"
proof (cases "meth r = GET \<and> resource r = PostsRoot")
  case True
  obtain out w1 where c: "run_chain [validators_list, validate] r w = (out, w1)"
    by (cases "run_chain [validators_list, validate] r w")
  show ?thesis
  proof (cases out)
    case (Next r1)
    from list_chain[OF c[unfolded Next]] get_posts_total[of r1 e w1]
    show ?thesis using True c Next by (simp add: posts_router_def)
  next
    case (Respond resp)
    then show ?thesis using True c by (simp add: posts_router_def)
  qed
next
  case False
  then show ?thesis
    by (cases "meth r"; cases "resource r") (simp_all add: posts_router_def)
qed

lemma app_total:
  assumes "resource r \<noteq> AuthRoute"
  shows "\<exists>resp w'. app e r w = Some (resp, w')"
proof -
  let ?r0 = "r\<lparr>file_path := None, verrors := []\<rparr>"
  have t: "resource ?r0 \<noteq> AuthRoute" using assms by simp
  obtain out w1 where a: "admission e ?r0 w = (out, w1)"
    by (cases "admission e ?r0 w")
  show ?thesis
  proof (cases out)
    case (Next r1)
    then have "r1 = ?r0" using a by (simp add: admission_Next[OF t])
    then show ?thesis
      using a Next assms posts_router_total[of e ?r0 w1]
      by (auto simp: app_def split: resource.splits)
  next
    case (Respond resp)
    then show ?thesis using a by (simp add: app_def)
  qed
qed

section \<open>The list route\<close>

lemma str_of_trim: "str_of (map_option trim v) = trim (str_of v)"
  by (cases v) (simp_all add: str_of_def trim_def)

lemma truthy_str_of: "truthy v = (str_of v \<noteq> [])"
  by (cases v) (simp_all add: str_of_def truthy_def)

lemma to_number_Fin: "to_number v = Fin p \<Longrightarrow> p = dbl_int (parse_int v)"
  by (auto simp: to_number_def Let_def split: if_splits)

lemma to_number_small: "\<bar>parse_int v\<bar> \<le> 2 ^ 53 \<Longrightarrow> to_number v = Fin (parse_int v)"
  by (simp add: to_number_def Let_def dbl_int_small dbl_overflow_small)

lemma isInt_limit_exact:
  assumes "isInt (Some 1) (Some 100) v"
  shows "to_number v = Fin (parse_int v) \<and> 1 \<le> parse_int v \<and> parse_int v \<le> 100"
proof -
  from isInt_limit[OF assms] obtain l where
    l: "to_number v = Fin l" "1 \<le> l" "l \<le> 100" by blast
  have d: "l = dbl_int (parse_int v)" using l(1) by (rule to_number_Fin)
  have "dbl_int (parse_int v) = parse_int v"
    using l(2,3) unfolding d by (intro dbl_int_exact) simp_all
  then show ?thesis using l d by simp
qed

lemma isInt_page_exact:
  assumes "isInt (Some 1) None v" "to_number v = Fin p"
  shows "p = dbl_int (parse_int v) \<and> 1 \<le> parse_int v \<and> 1 \<le> p"
proof -
  have d: "p = dbl_int (parse_int v)" using assms(2) by (rule to_number_Fin)
  have "1 \<le> p" using assms by (simp add: isInt_def)
  then show ?thesis using d dbl_int_pos[of "parse_int v"] by simp
qed

lemma find_docs_length: "find_docs e f ds = Inr matched \<Longrightarrow> length matched \<le> length ds"
  unfolding find_docs_def by (auto split: filter.splits option.splits)

lemma get_posts_listed:
  assumes "get_posts e r w = Some (resp, w')" "body resp = PostList ps pg"
  shows "\<exists>matched p l.
           find_docs e (if str_of (q_search r) = [] then MatchAll else OrRegex (str_of (q_search r)))
             (docs w) = Inr matched
           \<and> (case q_page r of None \<Rightarrow> Fin 1 | Some v \<Rightarrow> to_number v) = Fin p
           \<and> (case q_limit r of None \<Rightarrow> Fin 10 | Some v \<Rightarrow> to_number v) = Fin l
           \<and> w' = w \<and> status resp = 200 \<and> \<not> reads_fail e
           \<and> ps = take (nat l) (drop (nat ((p - 1) * l)) (sort_docs e (list_sort r) matched))
           \<and> pg = \<lparr>totalPages = math_ceil_div (int (length matched)) l,
                    currentPage = p,
                    totalPosts = int (length matched),
                    limit = l,
                    hasMore = (dbl_int (p * l) < int (length matched))\<rparr>"
  using assms unfolding get_posts_def list_sort_def Let_def truthy_str_of
  by (auto split: if_splits option.splits jsnum.splits sum.splits)

lemma list_result:
  assumes "app e r w = Some (resp, w')" "meth r = GET" "resource r = PostsRoot"
    "body resp = PostList ps pg"
  shows "\<exists>matched. find_docs e (list_filter r) (docs w) = Inr matched
           \<and> w' = w\<lparr>hits := hits w @ [(General, ip r)]\<rparr> \<and> status resp = 200
           \<and> 1 \<le> list_page r \<and> 1 \<le> list_limit r \<and> list_limit r \<le> 100
           \<and> length (search_term r) \<le> 100
           \<and> ps = take (nat (list_limit r))
                    (drop (nat ((dbl_int (list_page r) - 1) * list_limit r))
                       (sort_docs e (list_sort r) matched))
           \<and> pg = \<lparr>totalPages = math_ceil_div (int (length matched)) (list_limit r),
                    currentPage = dbl_int (list_page r),
                    totalPosts = int (length matched),
                    limit = list_limit r,
                    hasMore = (dbl_int (dbl_int (list_page r) * list_limit r)
                                 < int (length matched))\<rparr>"
proof -
  let ?r0 = "r\<lparr>file_path := None, verrors := []\<rparr>"
  have t: "resource ?r0 \<noteq> AuthRoute" using assms(3) by simp
  from assms obtain r1 w1 where
    g: "get_posts e r1 w1 = Some (resp, w')" and w1: "w1 = w\<lparr>hits := hits w @ [(General, ip r)]\<rparr>"
    and q: "q_page r1 = q_page r" "q_limit r1 = q_limit r" "q_sort r1 = q_sort r"
      "q_search r1 = map_option trim (q_search r)"
    and v: "case q_page r of None \<Rightarrow> True | Some v \<Rightarrow> isInt (Some 1) None v"
      "case q_limit r of None \<Rightarrow> True | Some v \<Rightarrow> isInt (Some 1) (Some 100) v"
      "length (search_term r) \<le> 100"
    unfolding app_def
    by (auto simp: admission_Next[OF t] admission_Respond[OF t] posts_router_def
          run_chain_iff middleware_iff validators_list_Next validators_list_Respond
          search_term_def str_of_def trim_def
          split: prod.splits flow.splits option.splits if_splits)
  have flt: "(if str_of (map_option trim (q_search r)) = [] then MatchAll
              else OrRegex (str_of (map_option trim (q_search r)))) = list_filter r"
    by (simp add: list_filter_def search_term_def str_of_trim)
  from get_posts_listed[OF g assms(4), unfolded q flt] obtain matched p l where
    m: "find_docs e (list_filter r) (docs w1) = Inr matched"
    and p: "(case q_page r of None \<Rightarrow> Fin 1 | Some v \<Rightarrow> to_number v) = Fin p"
    and l: "(case q_limit r of None \<Rightarrow> Fin 10 | Some v \<Rightarrow> to_number v) = Fin l"
    and rest: "w' = w1" "status resp = 200"
      "ps = take (nat l) (drop (nat ((p - 1) * l)) (sort_docs e (list_sort r1) matched))"
      "pg = \<lparr>totalPages = math_ceil_div (int (length matched)) l,
             currentPage = p,
             totalPosts = int (length matched),
             limit = l,
             hasMore = (dbl_int (p * l) < int (length matched))\<rparr>"
    by blast
  have lim: "l = list_limit r \<and> 1 \<le> list_limit r \<and> list_limit r \<le> 100"
  proof (cases "q_limit r")
    case None
    then show ?thesis using l by (simp add: list_limit_def)
  next
    case (Some s)
    then show ?thesis using l v(2) isInt_limit_exact[of s] by (simp add: list_limit_def)
  qed
  have pag: "p = dbl_int (list_page r) \<and> 1 \<le> list_page r"
  proof (cases "q_page r")
    case None
    then show ?thesis using p by (simp add: list_page_def dbl_int_small)
  next
    case (Some s)
    then show ?thesis using p v(1) isInt_page_exact[of s p] by (simp add: list_page_def)
  qed
  have srt: "list_sort r1 = list_sort r" using q(3) by (simp add: list_sort_def)
  show ?thesis
    using m rest lim pag v(3) w1 unfolding srt by auto
qed

text \<open>What makes the list route answer with a list.\<close>

lemma list_produced:
  assumes "meth r = GET" "resource r = PostsRoot" "db_connects e"
    "count_list (hits w) (General, ip r) < 100" "list_query_valid r" "list_page r \<le> 2 ^ 53"
    "\<not> reads_fail e" "find_docs e (list_filter r) (docs w) = Inr matched"
  shows "\<exists>ps pg w'. app e r w = Some (\<lparr>status = 200, body = PostList ps pg\<rparr>, w')"
proof -
  let ?r0 = "r\<lparr>file_path := None, verrors := []\<rparr>"
  let ?w1 = "w\<lparr>hits := hits w @ [(General, ip r)]\<rparr>"
  let ?r1 = "record_errors [] (?r0\<lparr>q_search := map_option trim (q_search r)\<rparr>)"
  have t: "resource ?r0 \<noteq> AuthRoute" using assms(2) by simp
  have vp: "case q_page r of None \<Rightarrow> True | Some v \<Rightarrow> isInt (Some 1) None v"
    and vl: "case q_limit r of None \<Rightarrow> True | Some v \<Rightarrow> isInt (Some 1) (Some 100) v"
    and vs: "length (trim (str_of (q_search r))) \<le> 100"
    using assms(5) by (simp_all add: list_query_valid_def)
  have adm: "admission e ?r0 w = (Next ?r0, ?w1)"
    using assms(3,4) by (simp add: admission_Next[OF t])
  have errs: "(case q_page r of None \<Rightarrow> []
                 | Some v \<Rightarrow> if isInt (Some 1) None v then []
                             else [(''page'', ''Page must be a positive integer'')])
                @ (case q_limit r of None \<Rightarrow> []
                   | Some v \<Rightarrow> if isInt (Some 1) (Some 100) v then []
                               else [(''limit'', ''Limit must be between 1 and 100'')])
                @ (case map_option trim (q_search r) of None \<Rightarrow> []
                   | Some v \<Rightarrow> if length v \<le> 100 then []
                               else [(''search'', ''Search query too long'')]) = []"
    using vp vl vs by (auto simp: str_of_def split: option.splits)
  have chain: "run_chain [validators_list, validate] ?r0 ?w1 = (Next ?r1, ?w1)"
    using errs by (simp add: run_chain_iff middleware_iff)
  obtain l where l: "(case q_limit r of None \<Rightarrow> Fin 10 | Some v \<Rightarrow> to_number v) = Fin l"
    "1 \<le> l" "l \<le> 100"
    using vl by (cases "q_limit r") (auto dest: isInt_limit)
  have "\<exists>p. (case q_page r of None \<Rightarrow> Fin 1 | Some v \<Rightarrow> to_number v) = Fin p \<and> 1 \<le> p"
  proof (cases "q_page r")
    case None
    then show ?thesis by simp
  next
    case (Some s)
    have "1 \<le> parse_int s"
    proof (cases "to_number s")
      case (Fin p)
      then show ?thesis using isInt_page_exact[of s p] vp Some by simp
    next
      case PosInf
      then show ?thesis by (auto simp: to_number_def Let_def split: if_splits)
    next
      case NegInf
      then show ?thesis using vp Some by (simp add: isInt_def)
    qed
    then have "\<bar>parse_int s\<bar> \<le> 2 ^ 53" using assms(6) Some by (simp add: list_page_def)
    then show ?thesis using Some \<open>1 \<le> parse_int s\<close> by (simp add: to_number_small)
  qed
  then obtain p where p: "(case q_page r of None \<Rightarrow> Fin 1 | Some v \<Rightarrow> to_number v) = Fin p"
    "1 \<le> p" by blast
  have flt: "(if truthy (map_option trim (q_search r))
              then OrRegex (str_of (map_option trim (q_search r))) else MatchAll) = list_filter r"
    by (simp add: list_filter_def search_term_def str_of_trim truthy_str_of)
  have "\<exists>ps pg. get_posts e ?r1 ?w1 = Some (\<lparr>status = 200, body = PostList ps pg\<rparr>, ?w1)"
    using l p assms(7,8) by (simp add: get_posts_def Let_def flt)
  then show ?thesis
    using adm chain assms(1,2) by (auto simp: app_def posts_router_def)
qed

section \<open>Partial update\<close>

text \<open>
  C8. For every update request on an existing post, whatever the outcome, the post is
  still stored afterwards, and each of heading, description and image that the
  request omits has the value it had before; the post in a success response is the
  stored one as the schema reads it: the stored post itself when that has an image
  field, and with the empty string for its image when the stored post lacks the field.
\<close>

theorem update_keeps_omitted_fields:
  assumes "app e r w = Some (resp, w')" "meth r = PUT" "resource r = PostsById i"
    "cast_object_id i = Some oid" "find (\<lambda>p. post_id p = oid) (docs w) = Some old"
  shows "\<exists>new. find (\<lambda>p. post_id p = oid) (docs w') = Some new
     \<and> (body_heading r = None \<longrightarrow> heading new = heading old)
     \<and> (body_description r = None \<longrightarrow> description new = description old)
     \<and> (image_part r = None \<longrightarrow> image new = image old)
     \<and> (\<forall>p. body resp = PostUpdated p \<longrightarrow>
            p = Some (hydrate new) \<and> (image new \<noteq> None \<longrightarrow> p = Some new))"
proof -
  let ?r0 = "r\<lparr>file_path := None, verrors := []\<rparr>"
  have t: "resource ?r0 \<noteq> AuthRoute" using assms(3) by simp
  from assms(1) consider
      (rejected) "docs w' = docs w" "\<forall>p. body resp \<noteq> PostUpdated p"
    | (handled) r1 w1 where "update_post e i r1 w1 = (resp, w')" "docs w1 = docs w"
        "body_heading r = None \<longrightarrow> body_heading r1 = None"
        "body_description r = None \<longrightarrow> body_description r1 = None"
        "image_part r = None \<longrightarrow> file_path r1 = None"
    unfolding app_def
    using assms(2,3)
    by (auto simp: admission_Next[OF t] admission_Respond[OF t] posts_router_def route_iff
          run_chain_iff middleware_iff
          split: prod.splits flow.splits dest!: upload_single_Respond)
  then show ?thesis
  proof cases
    case rejected
    then show ?thesis using assms(5) by simp
  next
    case handled
    from update_post_result[OF handled(1) assms(4)] handled(2) assms(5)
    consider "docs w' = docs w" "\<forall>p. body resp \<noteq> PostUpdated p"
      | "docs w' = replace_first oid (apply_update (cast_data (update_of r1)) old) (docs w)"
        "body resp = PostUpdated (Some (hydrate (apply_update (cast_data (update_of r1)) old)))"
      by auto
    then show ?thesis
    proof cases
      case 1
      then show ?thesis using assms(5) by simp
    next
      case 2
      have "post_id (apply_update (cast_data (update_of r1)) old) = oid"
        using find_post_id[OF assms(5)] by simp
      from find_replace_first[OF assms(5) this] 2 handled(3,4,5)
      show ?thesis
        by (auto simp: apply_update_def cast_data_def update_of_def truthy_def hydrate_id)
    qed
  qed
qed

theorem update_keeps_omitted_fields_witness:
  "app env0 put_description world0
     = Some (\<lparr>status = 200,
              body = PostUpdated (Some (post0\<lparr>description := ''A brand new body''\<rparr>))\<rparr>,
             world0\<lparr>docs := [post0\<lparr>description := ''A brand new body''\<rparr>],
                    hits := [(General, ''10.0.0.1''), (Upload, ''10.0.0.1'')],
                    effects := [RecordUpdate id0]\<rparr>)
   \<and> meth put_description = PUT \<and> resource put_description = PostsById id0
   \<and> cast_object_id id0 = Some id0
   \<and> find (\<lambda>p. post_id p = id0) (docs world0) = Some post0
   \<and> body_heading put_description = None \<and> image_part put_description = None
   \<and> find (\<lambda>p. post_id p = id0)
        (docs (world0\<lparr>docs := [post0\<lparr>description := ''A brand new body''\<rparr>],
                      hits := [(General, ''10.0.0.1''), (Upload, ''10.0.0.1'')],
                      effects := [RecordUpdate id0]\<rparr>))
       = Some (post0\<lparr>description := ''A brand new body''\<rparr>)
   \<and> heading (post0\<lparr>description := ''A brand new body''\<rparr>) = heading post0
   \<and> image (post0\<lparr>description := ''A brand new body''\<rparr>) = image post0"
proof -
  have run: "app env0 put_description world0
     = Some (\<lparr>status = 200,
              body = PostUpdated (Some (post0\<lparr>description := ''A brand new body''\<rparr>))\<rparr>,
             world0\<lparr>docs := [post0\<lparr>description := ''A brand new body''\<rparr>],
                    hits := [(General, ''10.0.0.1''), (Upload, ''10.0.0.1'')],
                    effects := [RecordUpdate id0]\<rparr>)"
    by (simp add: put_description_def run_defs)
  have m: "meth put_description = PUT" and t: "resource put_description = PostsById id0"
    by (simp_all add: put_description_def req0_def)
  have c: "cast_object_id id0 = Some id0"
    by (simp add: run_defs)
  have f: "find (\<lambda>p. post_id p = id0) (docs world0) = Some post0"
    by (simp add: world0_def post0_def)
  from update_keeps_omitted_fields[OF run m t c f] run m t c f
  show ?thesis
    by (simp add: put_description_def req0_def post0_sel)
qed

section \<open>Creation-input validation\<close>

lemma map_of_append_key:
  "map_of (map (\<lambda>(k, v). if k = p then (k, v @ [msg]) else (k, v)) m) k
     = (if k = p then map_option (\<lambda>v. v @ [msg]) (map_of m k) else map_of m k)"
  by (induction m) auto

lemma fst_append_key:
  "map (fst \<circ> (\<lambda>(k, v). if k = p then (k, v @ [msg]) else (k, v))) m = map fst m"
  by (induction m) auto

lemma map_of_push_error:
  "map_of (push_error m (p, msg)) k
     = (if k = p then Some ((case map_of m p of None \<Rightarrow> [] | Some ms \<Rightarrow> ms) @ [msg])
        else map_of m k)"
  by (auto simp: map_of_append_key map_add_def split: option.splits)

lemma keys_push_error: "map fst (push_error m e)
     = (if fst e \<in> set (map fst m) then map fst m else map fst m @ [fst e])"
proof (cases e)
  case (Pair p msg)
  show ?thesis
  proof (cases "map_of m p")
    case None
    have "p \<notin> fst ` set m" using None by (simp add: map_of_eq_None_iff)
    then show ?thesis using Pair by (simp add: None)
  next
    case (Some ms)
    then have "p \<in> fst ` set m" using map_of_eq_None_iff[of m p] by auto
    then show ?thesis using Pair Some by (simp add: fst_append_key)
  qed
qed

lemma distinct_push_error:
  "distinct (map fst m) \<Longrightarrow> distinct (map fst (push_error m e))"
  by (simp add: keys_push_error)

lemma format_errors_snoc: "format_errors (errs @ [e]) = push_error (format_errors errs) e"
  by (simp add: format_errors_def)

lemma map_of_format_errors:
  "map_of (format_errors errs) k
     = (if messages_for k errs = [] then None else Some (messages_for k errs))"
proof (induction errs rule: rev_induct)
  case Nil
  then show ?case by (simp add: format_errors_def messages_for_def)
next
  case (snoc e errs)
  obtain p msg where e: "e = (p, msg)" by (cases e)
  show ?case
    using snoc unfolding format_errors_snoc e
    by (auto simp: map_of_push_error messages_for_def simp del: push_error.simps)
qed

lemma distinct_format_errors: "distinct (map fst (format_errors errs))"
  by (induction errs rule: rev_induct)
     (simp add: format_errors_def, simp add: format_errors_snoc distinct_push_error)

lemma keys_format_errors: "set (map fst (format_errors errs)) = fst ` set errs"
  by (induction errs rule: rev_induct)
     (simp add: format_errors_def, auto simp: format_errors_snoc keys_push_error)

text \<open>The trimming of the validators is the trimming that the specification means.\<close>

lemma white_space_is_space: "white_space c = is_space c"
proof (cases c)
  case (Char b0 b1 b2 b3 b4 b5 b6 b7)
  show ?thesis
    unfolding Char white_space_def is_space_def
    by (cases b0; cases b1; cases b2; cases b3; cases b4; cases b5; cases b6; cases b7) simp_all
qed

lemma strip_left_dropWhile: "strip_left s = dropWhile is_space s"
  by (induction s) (simp_all add: white_space_is_space)

lemma strip_right_Nil: "(strip_right s = []) = (\<forall>c\<in>set s. is_space c)"
  by (induction s) (auto simp: white_space_is_space)

lemma strip_right_dropWhile: "strip_right s = rev (dropWhile is_space (rev s))"
proof (induction s)
  case Nil
  then show ?case by simp
next
  case (Cons c s)
  show ?case
  proof (cases "\<forall>x\<in>set s. is_space x")
    case True
    then show ?thesis
      using strip_right_Nil[of s] by (simp add: dropWhile_append white_space_is_space)
  next
    case False
    then show ?thesis
      using strip_right_Nil[of s] Cons by (auto simp: dropWhile_append)
  qed
qed

lemma trim_trimmed: "trim s = trimmed s"
  by (simp add: trim_def trimmed_def strip_left_dropWhile strip_right_dropWhile)

lemma create_errors_Nil: "(create_errors h d = []) = create_input_ok h d"
  unfolding create_errors_def create_input_ok_def heading_required_def heading_length_def
    description_required_def description_length_def trim_trimmed
  by auto

lemma create_errors_keys: "fst ` set (create_errors h d) \<subseteq> {''heading'', ''description''}"
  unfolding create_errors_def heading_required_def heading_length_def
    description_required_def description_length_def
  by auto

text \<open>
  C6. On a request without recorded errors, the creation validators followed by
  \<open>validate\<close> pass the request on exactly when the trimmed heading has 3 to 200
  characters and the trimmed description at least 10, trimming being the removal of
  the white space at the two ends. Otherwise the answer is 400 with a map from field
  name to messages: it is not empty, no field occurs twice, the fields are heading and
  description, and each field has its messages in the order of its validators.
\<close>

theorem create_validation:
  assumes "verrors r = []"
  shows "((\<exists>r'. run_chain [validators_create, validate] r w = (Next r', w))
            = create_input_ok (body_heading r) (body_description r))
     \<and> (\<not> create_input_ok (body_heading r) (body_description r) \<longrightarrow>
          (\<exists>m. run_chain [validators_create, validate] r w
                  = (Respond \<lparr>status = 400, body = ValidationFailed m\<rparr>, w)
             \<and> m \<noteq> [] \<and> distinct (map fst m)
             \<and> set (map fst m) \<subseteq> {''heading'', ''description''}
             \<and> (\<forall>k. map_of m k
                     = (if messages_for k (create_errors (body_heading r) (body_description r)) = []
                        then None
                        else Some (messages_for k
                                     (create_errors (body_heading r) (body_description r)))))))"
proof -
  let ?errs = "create_errors (body_heading r) (body_description r)"
  have acc: "(\<exists>r'. run_chain [validators_create, validate] r w = (Next r', w)) = (?errs = [])"
    using assms by (auto simp: run_chain_iff middleware_iff create_errors_def)
  have rej: "run_chain [validators_create, validate] r w
      = (Respond \<lparr>status = 400, body = ValidationFailed (format_errors ?errs)\<rparr>, w)"
    if "?errs \<noteq> []"
  proof -
    have "\<exists>resp w'. run_chain [validators_create, validate] r w = (Respond resp, w')"
      using that assms
      by (cases "run_chain [validators_create, validate] r w")
         (rename_tac out w', case_tac out, auto simp: run_chain_iff middleware_iff create_errors_def)
    then show ?thesis
      using assms by (auto simp: run_chain_iff middleware_iff create_errors_def)
  qed
  have ne: "format_errors ?errs \<noteq> []" if "?errs \<noteq> []"
    using keys_format_errors[of ?errs] that by (cases "format_errors ?errs") auto
  show ?thesis
    using acc rej ne distinct_format_errors[of ?errs] keys_format_errors[of ?errs]
      create_errors_keys[of "body_heading r" "body_description r"]
    by (auto simp: create_errors_Nil map_of_format_errors simp del: set_map)
qed

theorem create_validation_witness:
  "verrors (req_create ''ab'' ''0123456789'') = []
   \<and> \<not> (\<exists>r'. run_chain [validators_create, validate] (req_create ''ab'' ''0123456789'') world0
             = (Next r', world0))
   \<and> (\<exists>r'. run_chain [validators_create, validate] (req_create ''abc'' ''0123456789'') world0
             = (Next r', world0))
   \<and> \<not> (\<exists>r'. run_chain [validators_create, validate] (req_create ''abc'' ''012345678'') world0
             = (Next r', world0))
   \<and> \<not> (\<exists>r'. run_chain [validators_create, validate]
                 (req_create ''  ab  '' ''0123456789'') world0
             = (Next r', world0))
   \<and> \<not> (\<exists>r'. run_chain [validators_create, validate]
                 (req_create (''ab'' @ [CHR 0xA0]) ''0123456789'') world0
             = (Next r', world0))
   \<and> \<not> (\<exists>r'. run_chain [validators_create, validate]
                 (req_create ''abc'' (CHR 0x09 # ''012345678'' @ [CHR 0x0A, CHR '' ''])) world0
             = (Next r', world0))
   \<and> (\<exists>r'. run_chain [validators_create, validate]
               (req_create '' abc '' '' 0123456789 '') world0
             = (Next r', world0))
   \<and> create_input_ok (Some '' abc '') (Some '' 0123456789 '')
   \<and> \<not> create_input_ok (Some ''  ab  '') (Some ''0123456789'')
   \<and> run_chain [validators_create, validate] (req_create '' '' ''012345678'') world0
       = (Respond \<lparr>status = 400,
                   body = ValidationFailed
                     [(''heading'', [''Heading is required'',
                                     ''Heading must be between 3 and 200 characters'']),
                      (''description'', [''Description must be at least 10 characters''])]\<rparr>,
          world0)"
proof -
  have v: "verrors (req_create h d) = []" for h d
    by (simp add: req_create_def req0_def)
  have b: "body_heading (req_create h d) = Some h" "body_description (req_create h d) = Some d"
    for h d
    by (simp_all add: req_create_def)
  have ok: "\<not> create_input_ok (Some ''ab'') (Some ''0123456789'')"
    "create_input_ok (Some ''abc'') (Some ''0123456789'')"
    "\<not> create_input_ok (Some ''abc'') (Some ''012345678'')"
    "\<not> create_input_ok (Some ''  ab  '') (Some ''0123456789'')"
    "\<not> create_input_ok (Some (''ab'' @ [CHR 0xA0])) (Some ''0123456789'')"
    "\<not> create_input_ok (Some ''abc'') (Some (CHR 0x09 # ''012345678'' @ [CHR 0x0A, CHR '' '']))"
    "create_input_ok (Some '' abc '') (Some '' 0123456789 '')"
    by (simp_all add: create_input_ok_def trimmed_def white_space_def str_of_def)
  have r: "run_chain [validators_create, validate] (req_create '' '' ''012345678'') world0
       = (Respond \<lparr>status = 400,
                   body = ValidationFailed
                     [(''heading'', [''Heading is required'',
                                     ''Heading must be between 3 and 200 characters'']),
                      (''description'', [''Description must be at least 10 characters''])]\<rparr>,
          world0)"
    by (simp add: req_create_def run_defs)
  from create_validation[OF v, of "''ab''" "''0123456789''" world0]
    create_validation[OF v, of "''abc''" "''0123456789''" world0]
    create_validation[OF v, of "''abc''" "''012345678''" world0]
    create_validation[OF v, of "''  ab  ''" "''0123456789''" world0]
    create_validation[OF v, of "''ab'' @ [CHR 0xA0]" "''0123456789''" world0]
    create_validation[OF v, of "''abc''" "CHR 0x09 # ''012345678'' @ [CHR 0x0A, CHR '' '']" world0]
    create_validation[OF v, of "'' abc ''" "'' 0123456789 ''" world0]
    ok r v
  show ?thesis
    unfolding b by simp
qed

section \<open>Listing\<close>

lemma list_block:
  assumes "app e r w = Some (resp, w')" "meth r = GET" "resource r = PostsRoot"
    "body resp = PostList ps pg"
  shows "(\<exists>matched. find_docs e (list_filter r) (docs w) = Inr matched
            \<and> totalPosts pg = int (length matched))
     \<and> status resp = 200 \<and> limit pg = list_limit r \<and> 1 \<le> limit pg \<and> limit pg \<le> 100
     \<and> currentPage pg = dbl_int (list_page r) \<and> 1 \<le> list_page r
     \<and> (list_page r \<le> 2 ^ 53 \<longrightarrow> currentPage pg = list_page r)
     \<and> (totalPosts pg < 2 ^ 53 \<longrightarrow>
          totalPages pg = \<lceil>real_of_int (totalPosts pg) / real_of_int (limit pg)\<rceil>
          \<and> hasMore pg = (list_page r * limit pg < totalPosts pg)
          \<and> hasMore pg = (currentPage pg * limit pg < totalPosts pg))"
proof -
  from list_result[OF assms] obtain matched where
    m: "find_docs e (list_filter r) (docs w) = Inr matched"
    and st: "status resp = 200"
    and b: "1 \<le> list_page r" "1 \<le> list_limit r" "list_limit r \<le> 100"
    and pg: "pg = \<lparr>totalPages = math_ceil_div (int (length matched)) (list_limit r),
                    currentPage = dbl_int (list_page r),
                    totalPosts = int (length matched),
                    limit = list_limit r,
                    hasMore = (dbl_int (dbl_int (list_page r) * list_limit r)
                                 < int (length matched))\<rparr>"
    by blast
  have small: "dbl_int (list_page r) = list_page r" if "list_page r \<le> 2 ^ 53"
    using that b(1) by (intro dbl_int_small) linarith
  have ceil: "math_ceil_div (int (length matched)) (list_limit r)
      = \<lceil>real_of_int (int (length matched)) / real_of_int (list_limit r)\<rceil>"
    if "int (length matched) < 2 ^ 53"
  proof -
    have "math_ceil_div (int (length matched)) (list_limit r)
        = - ((- int (length matched)) div list_limit r)"
      using that b(2,3) by (intro math_ceil_div_code) simp_all
    then show ?thesis by (simp only: ceiling_divide_eq_div)
  qed
  have more: "(dbl_int (dbl_int (list_page r) * list_limit r) < int (length matched))
      = (list_page r * list_limit r < int (length matched))"
    if "int (length matched) < 2 ^ 53"
    using b(1,2) that by (rule has_more_exact)
  have reported: "(dbl_int (list_page r) * list_limit r < int (length matched))
      = (list_page r * list_limit r < int (length matched))"
    if "int (length matched) < 2 ^ 53"
    using b(1,2) that by (rule has_more_reported)
  show ?thesis
    unfolding pg using m st b small ceil more reported by simp
qed

text \<open>
  C5. Every list request is answered. It is answered with a list when the database
  connects, the general limiter admits the request, the query is valid (a page of at
  least 1, here up to \<open>2 ^ 53\<close>, and a limit from 1 to 100, the defaults being 1 and
  10), the reads succeed and the search pattern is accepted. In every answer with a
  list, T is the number of stored posts that match the filter and L the limit of the
  query; the page reported is the page p of the query as a JavaScript number, which is
  p itself up to \<open>2 ^ 53\<close>; and for T below \<open>2 ^ 53\<close>, totalPages is the ceiling of
  T / L and hasMore is p * L < T, computed in doubles as they are. For T = 25 and
  L = 10, page 3 has totalPages 3 and no more, page 2 has more.
\<close>

theorem list_pagination:
  assumes "meth r = GET" "resource r = PostsRoot"
  shows "(\<exists>resp w'. app e r w = Some (resp, w')
            \<and> (db_connects e \<and> count_list (hits w) (General, ip r) < 100
                 \<and> list_query_valid r \<and> list_page r \<le> 2 ^ 53 \<and> \<not> reads_fail e
                 \<and> (\<exists>matched. find_docs e (list_filter r) (docs w) = Inr matched)
               \<longrightarrow> status resp = 200 \<and> (\<exists>ps pg. body resp = PostList ps pg)))
     \<and> (\<forall>resp w' ps pg. app e r w = Some (resp, w') \<and> body resp = PostList ps pg \<longrightarrow>
          (\<exists>matched. find_docs e (list_filter r) (docs w) = Inr matched
             \<and> totalPosts pg = int (length matched))
          \<and> limit pg = list_limit r \<and> 1 \<le> limit pg \<and> limit pg \<le> 100
          \<and> currentPage pg = dbl_int (list_page r) \<and> 1 \<le> list_page r
          \<and> (list_page r \<le> 2 ^ 53 \<longrightarrow> currentPage pg = list_page r)
          \<and> (totalPosts pg < 2 ^ 53 \<longrightarrow>
               totalPages pg = \<lceil>real_of_int (totalPosts pg) / real_of_int (limit pg)\<rceil>
               \<and> hasMore pg = (list_page r * limit pg < totalPosts pg)
               \<and> hasMore pg = (currentPage pg * limit pg < totalPosts pg))
          \<and> (totalPosts pg = 25 \<and> limit pg = 10 \<and> list_page r = 3
               \<longrightarrow> totalPages pg = 3 \<and> \<not> hasMore pg)
          \<and> (totalPosts pg = 25 \<and> limit pg = 10 \<and> list_page r = 2
               \<longrightarrow> totalPages pg = 3 \<and> hasMore pg))"
proof -
  have t: "resource r \<noteq> AuthRoute" using assms(2) by simp
  from app_total[OF t] obtain resp w' where run: "app e r w = Some (resp, w')" by blast
  have produced: "status resp = 200 \<and> (\<exists>ps pg. body resp = PostList ps pg)"
    if "db_connects e" "count_list (hits w) (General, ip r) < 100" "list_query_valid r"
      "list_page r \<le> 2 ^ 53" "\<not> reads_fail e"
      "\<exists>matched. find_docs e (list_filter r) (docs w) = Inr matched"
  proof -
    from that(6) obtain matched where "find_docs e (list_filter r) (docs w) = Inr matched"
      by blast
    from list_produced[OF assms that(1-5) this] run show ?thesis by auto
  qed
  have block: "(\<exists>matched. find_docs e (list_filter r) (docs w) = Inr matched
             \<and> totalPosts pg = int (length matched))
          \<and> limit pg = list_limit r \<and> 1 \<le> limit pg \<and> limit pg \<le> 100
          \<and> currentPage pg = dbl_int (list_page r) \<and> 1 \<le> list_page r
          \<and> (list_page r \<le> 2 ^ 53 \<longrightarrow> currentPage pg = list_page r)
          \<and> (totalPosts pg < 2 ^ 53 \<longrightarrow>
               totalPages pg = \<lceil>real_of_int (totalPosts pg) / real_of_int (limit pg)\<rceil>
               \<and> hasMore pg = (list_page r * limit pg < totalPosts pg)
               \<and> hasMore pg = (currentPage pg * limit pg < totalPosts pg))
          \<and> (totalPosts pg = 25 \<and> limit pg = 10 \<and> list_page r = 3
               \<longrightarrow> totalPages pg = 3 \<and> \<not> hasMore pg)
          \<and> (totalPosts pg = 25 \<and> limit pg = 10 \<and> list_page r = 2
               \<longrightarrow> totalPages pg = 3 \<and> hasMore pg)"
    if "app e r w = Some (resp', w'')" "body resp' = PostList ps pg" for resp' w'' ps pg
  proof -
    note lb = list_block[OF that(1) assms that(2)]
    have i3: "totalPages pg = 3 \<and> \<not> hasMore pg"
      if "totalPosts pg = 25" "limit pg = 10" "list_page r = 3"
      using lb that by simp
    have i2: "totalPages pg = 3 \<and> hasMore pg"
      if "totalPosts pg = 25" "limit pg = 10" "list_page r = 2"
      using lb that by simp
    show ?thesis using lb i3 i2 by blast
  qed
  show ?thesis
    using run produced block by blast
qed

theorem list_pagination_witness:
  "app env0 page3 world25
     = Some (\<lparr>status = 200,
              body = PostList (map numbered [''20'', ''21'', ''22'', ''23'', ''24''])
                       \<lparr>totalPages = 3, currentPage = 3, totalPosts = 25, limit = 10,
                        hasMore = False\<rparr>\<rparr>,
             world25\<lparr>hits := [(General, ''10.0.0.1'')]\<rparr>)
   \<and> app env0 page2 world25
     = Some (\<lparr>status = 200,
              body = PostList (map numbered [''10'', ''11'', ''12'', ''13'', ''14'', ''15'',
                                             ''16'', ''17'', ''18'', ''19''])
                       \<lparr>totalPages = 3, currentPage = 2, totalPosts = 25, limit = 10,
                        hasMore = True\<rparr>\<rparr>,
             world25\<lparr>hits := [(General, ''10.0.0.1'')]\<rparr>)
   \<and> app env0 (search_for ''o+'') world0
     = Some (\<lparr>status = 200,
              body = PostList [post0]
                       \<lparr>totalPages = 1, currentPage = 1, totalPosts = 1, limit = 10,
                        hasMore = False\<rparr>\<rparr>,
             world0\<lparr>hits := [(General, ''10.0.0.1'')]\<rparr>)
   \<and> app env0 (search_for ''('') world0
     = Some (\<lparr>status = 500, body = Failure ''Server error''\<rparr>,
             world0\<lparr>hits := [(General, ''10.0.0.1'')], console := [''Get posts error:'']\<rparr>)
   \<and> app env0 (req0\<lparr>q_page := Some ''9007199254740993''\<rparr>) world0
     = Some (\<lparr>status = 200,
              body = PostList []
                       \<lparr>totalPages = 1, currentPage = 9007199254740992, totalPosts = 1,
                        limit = 10, hasMore = False\<rparr>\<rparr>,
             world0\<lparr>hits := [(General, ''10.0.0.1'')]\<rparr>)
   \<and> meth page3 = GET \<and> resource page3 = PostsRoot
   \<and> meth page2 = GET \<and> resource page2 = PostsRoot
   \<and> db_connects env0 \<and> count_list (hits world25) (General, ip page3) < 100
   \<and> list_query_valid page3 \<and> \<not> reads_fail env0
   \<and> find_docs env0 (list_filter page3) (docs world25) = Inr (docs world25)
   \<and> list_page page3 = 3 \<and> list_page page2 = 2 \<and> list_limit page3 = 10
   \<and> list_page (req0\<lparr>q_page := Some ''9007199254740993''\<rparr>) = 9007199254740993
   \<and> (3::int) = \<lceil>real_of_int 25 / real_of_int 10\<rceil>"
proof -
  have run3: "app env0 page3 world25
     = Some (\<lparr>status = 200,
              body = PostList (map numbered [''20'', ''21'', ''22'', ''23'', ''24''])
                       \<lparr>totalPages = 3, currentPage = 3, totalPosts = 25, limit = 10,
                        hasMore = False\<rparr>\<rparr>,
             world25\<lparr>hits := [(General, ''10.0.0.1'')]\<rparr>)"
    by (simp add: page3_def world25_sel run_defs)
  have run2: "app env0 page2 world25
     = Some (\<lparr>status = 200,
              body = PostList (map numbered [''10'', ''11'', ''12'', ''13'', ''14'', ''15'',
                                             ''16'', ''17'', ''18'', ''19''])
                       \<lparr>totalPages = 3, currentPage = 2, totalPosts = 25, limit = 10,
                        hasMore = True\<rparr>\<rparr>,
             world25\<lparr>hits := [(General, ''10.0.0.1'')]\<rparr>)"
    by (simp add: page2_def world25_sel run_defs)
  have run_engine: "app env0 (search_for ''o+'') world0
     = Some (\<lparr>status = 200,
              body = PostList [post0]
                       \<lparr>totalPages = 1, currentPage = 1, totalPosts = 1, limit = 10,
                        hasMore = False\<rparr>\<rparr>,
             world0\<lparr>hits := [(General, ''10.0.0.1'')]\<rparr>)"
    by (simp add: search_for_def run_defs)
  have run_refused: "app env0 (search_for ''('') world0
     = Some (\<lparr>status = 500, body = Failure ''Server error''\<rparr>,
             world0\<lparr>hits := [(General, ''10.0.0.1'')], console := [''Get posts error:'']\<rparr>)"
    by (simp add: search_for_def run_defs)
  have m: "meth page3 = GET" "resource page3 = PostsRoot" "meth page2 = GET"
    "resource page2 = PostsRoot"
    by (simp_all add: page3_def page2_def req0_def)
  have mb: "meth (req0\<lparr>q_page := Some ''9007199254740993''\<rparr>) = GET"
    "resource (req0\<lparr>q_page := Some ''9007199254740993''\<rparr>) = PostsRoot"
    by (simp_all add: req0_def)
  have lp: "list_page page3 = 3" "list_page page2 = 2" "list_limit page3 = 10"
    "list_limit page2 = 10"
    "list_page (req0\<lparr>q_page := Some ''9007199254740993''\<rparr>) = 9007199254740993"
    "list_limit (req0\<lparr>q_page := Some ''9007199254740993''\<rparr>) = 10"
    by (simp_all add: list_page_def list_limit_def page3_def page2_def req0_sel parse_int_def
          strip_sign_def digit_val_def)
  have v: "list_query_valid page3"
    by (simp add: list_query_valid_def page3_def req0_sel isInt_def int_syntax_def strip_sign_def
          is_digit_def to_number_def parse_int_def digit_val_def dbl_int_small
          dbl_overflow_small trim_def str_of_def Let_def)
  have f: "find_docs env0 (list_filter page3) (docs world25) = Inr (docs world25)"
    by (simp add: find_docs_def list_filter_def search_term_def page3_def req0_sel trim_def
          str_of_def)
  have e: "db_connects env0" "\<not> reads_fail env0"
    "count_list (hits world25) (General, ip page3) < 100"
    by (simp_all add: env0_sel world25_sel)
  have run_big: "app env0 (req0\<lparr>q_page := Some ''9007199254740993''\<rparr>) world0
     = Some (\<lparr>status = 200,
              body = PostList []
                       \<lparr>totalPages = 1, currentPage = 9007199254740992, totalPosts = 1,
                        limit = 10, hasMore = False\<rparr>\<rparr>,
             world0\<lparr>hits := [(General, ''10.0.0.1'')]\<rparr>)"
  proof -
    have "\<not> dbl_int 90071992547409920 < 1"
      using dbl_int_ge[of 90071992547409920] by simp
    then show ?thesis
      by (simp add: run_defs dbl_int_example)
  qed
  have b3: "body \<lparr>status = 200,
              body = PostList (map numbered [''20'', ''21'', ''22'', ''23'', ''24''])
                       \<lparr>totalPages = 3, currentPage = 3, totalPosts = 25, limit = 10,
                        hasMore = False\<rparr>\<rparr>
      = PostList (map numbered [''20'', ''21'', ''22'', ''23'', ''24''])
                       \<lparr>totalPages = 3, currentPage = 3, totalPosts = 25, limit = 10,
                        hasMore = False\<rparr>"
    by simp
  have b2: "body \<lparr>status = 200,
              body = PostList (map numbered [''10'', ''11'', ''12'', ''13'', ''14'', ''15'',
                                             ''16'', ''17'', ''18'', ''19''])
                       \<lparr>totalPages = 3, currentPage = 2, totalPosts = 25, limit = 10,
                        hasMore = True\<rparr>\<rparr>
      = PostList (map numbered [''10'', ''11'', ''12'', ''13'', ''14'', ''15'',
                                             ''16'', ''17'', ''18'', ''19''])
                       \<lparr>totalPages = 3, currentPage = 2, totalPosts = 25, limit = 10,
                        hasMore = True\<rparr>"
    by simp
  have bb: "body \<lparr>status = 200,
              body = PostList []
                       \<lparr>totalPages = 1, currentPage = 9007199254740992, totalPosts = 1,
                        limit = 10, hasMore = False\<rparr>\<rparr>
      = PostList [] \<lparr>totalPages = 1, currentPage = 9007199254740992, totalPosts = 1,
                      limit = 10, hasMore = False\<rparr>"
    by simp
  from list_pagination[OF m(1,2), of env0 world25, THEN conjunct2, rule_format,
         OF conjI[OF run3 b3]]
    list_pagination[OF m(3,4), of env0 world25, THEN conjunct2, rule_format,
      OF conjI[OF run2 b2]]
    list_pagination[OF mb, of env0 world0, THEN conjunct2, rule_format, OF conjI[OF run_big bb]]
    list_pagination[OF m(1,2), of env0 world25, THEN conjunct1]
    run3 run2 run_engine run_refused run_big m e v f lp
  show ?thesis
    by simp
qed

section \<open>Search\<close>

lemma match_here_Lit:
  "match_here (map Lit pat) s = prefix (map to_lower pat) (map to_lower s)"
proof (induction pat arbitrary: s)
  case Nil
  then show ?case by simp
next
  case (Cons a pat)
  then show ?case by (cases s) auto
qed

lemma regex_search_Lit:
  "regex_search (map Lit pat) s = sublist (map to_lower pat) (map to_lower s)"
proof (induction s)
  case Nil
  then show ?case by (cases pat) simp_all
next
  case (Cons c s)
  then show ?case by (simp add: match_here_Lit sublist_Cons_right)
qed

lemma parse_regex_plain: "plain_term t \<Longrightarrow> parse_regex t = Some (map Lit t)"
  unfolding plain_term_def parse_regex_def
  by (auto simp: list_all_iff list_ex_iff)

lemma find_docs_plain:
  assumes "plain_term (search_term r)"
  shows "find_docs e (list_filter r) ds
     = Inr (filter (\<lambda>p. contains_ci (search_term r) (heading p)
                        \<or> contains_ci (search_term r) (description p)) ds)"
proof (cases "search_term r = []")
  case True
  then show ?thesis
    by (simp add: list_filter_def find_docs_def contains_ci_def toLowerCase_def)
next
  case False
  then show ?thesis
    using parse_regex_plain[OF assms]
    by (simp add: list_filter_def find_docs_def contains_ci_def toLowerCase_def regex_search_Lit)
qed

text \<open>
  C7 (amended). The search term is used as a case-insensitive regular expression on
  heading and description. For every list request whose trimmed search term has no
  regular-expression metacharacter, the posts counted and paged are exactly those
  whose heading or description contains the term as a case-insensitive substring; an
  empty or absent term selects every post.
\<close>

theorem search_plain_terms:
  assumes "app e r w = Some (resp, w')" "meth r = GET" "resource r = PostsRoot"
    "body resp = PostList ps pg" "plain_term (search_term r)"
  shows "totalPosts pg
           = int (length (filter (\<lambda>p. contains_ci (search_term r) (heading p)
                                      \<or> contains_ci (search_term r) (description p)) (docs w)))
     \<and> ps = take (nat (limit pg)) (drop (nat ((currentPage pg - 1) * limit pg))
              (sort_docs e (list_sort r)
                 (filter (\<lambda>p. contains_ci (search_term r) (heading p)
                               \<or> contains_ci (search_term r) (description p)) (docs w))))
     \<and> (search_term r = [] \<longrightarrow>
          filter (\<lambda>p. contains_ci (search_term r) (heading p)
                      \<or> contains_ci (search_term r) (description p)) (docs w) = docs w)"
proof -
  from list_result[OF assms(1-4)] find_docs_plain[OF assms(5), of e "docs w"]
  show ?thesis
    by (auto simp: contains_ci_def toLowerCase_def)
qed

theorem search_plain_terms_witness:
  "app env0 (search_for ''hello'') world0
     = Some (\<lparr>status = 200,
              body = PostList [post0]
                       \<lparr>totalPages = 1, currentPage = 1, totalPosts = 1, limit = 10,
                        hasMore = False\<rparr>\<rparr>,
             world0\<lparr>hits := [(General, ''10.0.0.1'')]\<rparr>)
   \<and> app env0 (search_for ''xyz'') world0
     = Some (\<lparr>status = 200,
              body = PostList []
                       \<lparr>totalPages = 0, currentPage = 1, totalPosts = 0, limit = 10,
                        hasMore = False\<rparr>\<rparr>,
             world0\<lparr>hits := [(General, ''10.0.0.1'')]\<rparr>)
   \<and> meth (search_for ''hello'') = GET \<and> resource (search_for ''hello'') = PostsRoot
   \<and> plain_term (search_term (search_for ''hello''))
   \<and> plain_term (search_term (search_for ''xyz''))
   \<and> length (filter (\<lambda>p. contains_ci (search_term (search_for ''hello'')) (heading p)
                          \<or> contains_ci (search_term (search_for ''hello'')) (description p))
                (docs world0)) = 1
   \<and> length (filter (\<lambda>p. contains_ci (search_term (search_for ''xyz'')) (heading p)
                          \<or> contains_ci (search_term (search_for ''xyz'')) (description p))
                (docs world0)) = 0"
proof -
  have run1: "app env0 (search_for ''hello'') world0
     = Some (\<lparr>status = 200,
              body = PostList [post0]
                       \<lparr>totalPages = 1, currentPage = 1, totalPosts = 1, limit = 10,
                        hasMore = False\<rparr>\<rparr>,
             world0\<lparr>hits := [(General, ''10.0.0.1'')]\<rparr>)"
    by (simp add: search_for_def run_defs)
  have run2: "app env0 (search_for ''xyz'') world0
     = Some (\<lparr>status = 200,
              body = PostList []
                       \<lparr>totalPages = 0, currentPage = 1, totalPosts = 0, limit = 10,
                        hasMore = False\<rparr>\<rparr>,
             world0\<lparr>hits := [(General, ''10.0.0.1'')]\<rparr>)"
    by (simp add: search_for_def run_defs)
  have m: "meth (search_for t) = GET" "resource (search_for t) = PostsRoot" for t
    by (simp_all add: search_for_def req0_def)
  have p: "plain_term (search_term (search_for ''hello''))"
    "plain_term (search_term (search_for ''xyz''))"
    by (simp_all add: plain_term_def search_term_def search_for_def other_meta_def trim_def
          is_space_def str_of_def)
  have b1: "body \<lparr>status = 200,
              body = PostList [post0]
                       \<lparr>totalPages = 1, currentPage = 1, totalPosts = 1, limit = 10,
                        hasMore = False\<rparr>\<rparr>
      = PostList [post0]
          \<lparr>totalPages = 1, currentPage = 1, totalPosts = 1, limit = 10, hasMore = False\<rparr>"
    by simp
  have b2: "body \<lparr>status = 200,
              body = PostList []
                       \<lparr>totalPages = 0, currentPage = 1, totalPosts = 0, limit = 10,
                        hasMore = False\<rparr>\<rparr>
      = PostList []
          \<lparr>totalPages = 0, currentPage = 1, totalPosts = 0, limit = 10, hasMore = False\<rparr>"
    by simp
  from search_plain_terms[OF run1 m b1 p(1)] search_plain_terms[OF run2 m b2 p(2)] run1 run2 m p
  show ?thesis
    by simp
qed


text \<open>
  The term \<open>h.llo\<close> selects the post headed "Hello World", which does not contain
  it: the dot matches any character.
\<close>

theorem search_is_regex_counterexample:
  "map_option (body \<circ> fst) (app env0 (search_for ''h.llo'') world0)
     = Some (PostList [post0]
               \<lparr>totalPages = 1, currentPage = 1, totalPosts = 1, limit = 10, hasMore = False\<rparr>)
   \<and> \<not> contains_ci ''h.llo'' (heading post0)
   \<and> \<not> contains_ci ''h.llo'' (description post0)"
  by (simp add: contains_ci_def search_for_def run_defs)
section \<open>Order of the store calls on update\<close>

text \<open>
  C1 (amended). For every update request that replaces the image of a post that has
  one and that is answered with 200: the new image is uploaded first, then the previous
  image is deleted from the Asset Store (unless that call fails, which is swallowed),
  and only then is the record updated; afterwards the stored record has the new URL.
  The deletion of the previous image precedes the record update.
\<close>

theorem update_replaces_image_order:
  assumes "app e r w = Some (resp, w')" "meth r = PUT" "resource r = PostsById i"
    "image_part r = Some f" "cast_object_id i = Some oid"
    "find (\<lambda>p. post_id p = oid) (docs w) = Some old" "image old = Some u" "u \<noteq> []"
    "status resp = 200"
  shows "effects w' = effects w
           @ [AssetUpload (''blog-uploads/'' @ upload_name e)]
           @ (if destroy_fails e then [] else [AssetDestroy (public_id_of u)])
           @ [RecordUpdate oid]
     \<and> blobs w' = (if destroy_fails e then blobs w @ [''blog-uploads/'' @ upload_name e]
                   else removeAll (public_id_of u) (blobs w @ [''blog-uploads/'' @ upload_name e]))
     \<and> (\<exists>new. find (\<lambda>p. post_id p = oid) (docs w') = Some new
                \<and> image new = Some (upload_url e))"
proof -
  let ?r0 = "r\<lparr>file_path := None, verrors := []\<rparr>"
  have t: "resource ?r0 \<noteq> AuthRoute" using assms(3) by simp
  from assms(1,9) obtain r1 w1 where
    h: "update_post e i r1 w1 = (resp, w')"
    and w1: "w1 = stored e (w\<lparr>hits := hits w @ [(General, ip r)]\<rparr>
                              \<lparr>hits := hits w @ [(General, ip r), (Upload, ip r)]\<rparr>)"
    and r1: "file_path r1 = Some (upload_url e)"
    unfolding app_def
    using assms(2,3,4)
    by (auto simp: admission_Next[OF t] admission_Respond[OF t] posts_router_def route_iff
          run_chain_iff middleware_iff uploadLimiter_def
          split: prod.splits flow.splits dest!: upload_single_Respond)
  have f1: "find (\<lambda>p. post_id p = oid) (docs w1) = Some old"
    using assms(6) w1 by simp
  have pid: "post_id (apply_update (cast_data (update_of r1)) old) = oid"
    using find_post_id[OF assms(6)] by simp
  have img: "image (apply_update (cast_data (update_of r1)) old) = Some (upload_url e)"
    using r1 by (simp add: apply_update_def cast_data_def update_of_def)
  from update_post_ok[OF h assms(9,5) f1] r1
  have w': "w' = (cleaned e (image old) w1)
               \<lparr>docs := replace_first oid (apply_update (cast_data (update_of r1)) old) (docs w1),
                effects := effects (cleaned e (image old) w1) @ [RecordUpdate oid]\<rparr>"
    by simp
  have "find (\<lambda>p. post_id p = oid) (docs w') = Some (apply_update (cast_data (update_of r1)) old)"
    unfolding w' using find_replace_first[OF f1 pid] by simp
  then show ?thesis
    unfolding w' using assms(7,8) w1 img
    by (auto simp: effects_cleaned blobs_cleaned truthy_def str_of_def apply_update_def)
qed

theorem update_replaces_image_order_witness:
  "app env0 put_image world0
     = Some (\<lparr>status = 200,
              body = PostUpdated
                (Some (post0\<lparr>heading := ''New heading'', image := Some (upload_url env0)\<rparr>))\<rparr>,
             world0\<lparr>docs := [post0\<lparr>heading := ''New heading'',
                                     image := Some (upload_url env0)\<rparr>],
                    blobs := [''blog-uploads/blog_1_2''],
                    hits := [(General, ''10.0.0.1''), (Upload, ''10.0.0.1'')],
                    console := [''Deleted image: blog-uploads/blog_0_0''],
                    effects := [AssetUpload ''blog-uploads/blog_1_2'',
                                AssetDestroy ''blog-uploads/blog_0_0'',
                                RecordUpdate id0]\<rparr>)
   \<and> meth put_image = PUT \<and> resource put_image = PostsById id0
   \<and> image_part put_image = Some png \<and> cast_object_id id0 = Some id0
   \<and> find (\<lambda>p. post_id p = id0) (docs world0) = Some post0
   \<and> image post0 = Some url0 \<and> url0 \<noteq> []
   \<and> public_id_of url0 = ''blog-uploads/blog_0_0''
   \<and> upload_name env0 = ''blog_1_2'' \<and> \<not> destroy_fails env0"
proof -
  have run: "app env0 put_image world0
     = Some (\<lparr>status = 200,
              body = PostUpdated
                (Some (post0\<lparr>heading := ''New heading'', image := Some (upload_url env0)\<rparr>))\<rparr>,
             world0\<lparr>docs := [post0\<lparr>heading := ''New heading'',
                                     image := Some (upload_url env0)\<rparr>],
                    blobs := [''blog-uploads/blog_1_2''],
                    hits := [(General, ''10.0.0.1''), (Upload, ''10.0.0.1'')],
                    console := [''Deleted image: blog-uploads/blog_0_0''],
                    effects := [AssetUpload ''blog-uploads/blog_1_2'',
                                AssetDestroy ''blog-uploads/blog_0_0'',
                                RecordUpdate id0]\<rparr>)"
    by (simp add: put_image_def run_defs)
  have m: "meth put_image = PUT" and t: "resource put_image = PostsById id0"
    and p: "image_part put_image = Some png"
    by (simp_all add: put_image_def req0_def)
  have c: "cast_object_id id0 = Some id0"
    by (simp add: run_defs)
  have f: "find (\<lambda>p. post_id p = id0) (docs world0) = Some post0"
    by (simp add: world0_def post0_def)
  have i: "image post0 = Some url0" and u: "url0 \<noteq> []"
    by (simp_all add: post0_def url0_def)
  have s: "status \<lparr>status = 200,
              body = PostUpdated
                (Some (post0\<lparr>heading := ''New heading'', image := Some (upload_url env0)\<rparr>))\<rparr>
     = 200"
    by simp
  have pid: "public_id_of url0 = ''blog-uploads/blog_0_0''"
    by (simp add: public_id_of_def url0_def)
  from update_replaces_image_order[OF run m t p c f i u s] run m t p c f i u pid
  show ?thesis
    by (simp add: env0_sel)
qed

text \<open>
  When the record update fails after the lookup, the previous image is already
  deleted and the stored record still has its URL.
\<close>

theorem update_deletes_before_save_counterexample:
  "app (env0\<lparr>writes_fail := True\<rparr>) put_image world0
     = Some (\<lparr>status = 400, body = Failure ''store unavailable''\<rparr>,
             world0\<lparr>blobs := [''blog-uploads/blog_1_2''],
                    hits := [(General, ''10.0.0.1''), (Upload, ''10.0.0.1'')],
                    console := [''Deleted image: blog-uploads/blog_0_0'', ''Update post error:''],
                    effects := [AssetUpload ''blog-uploads/blog_1_2'',
                                AssetDestroy ''blog-uploads/blog_0_0'']\<rparr>)
   \<and> docs world0 = [post0] \<and> image post0 = Some url0
   \<and> public_id_of url0 = ''blog-uploads/blog_0_0''"
  by (simp add: put_image_def run_defs)

section \<open>Order of the store calls on delete\<close>

text \<open>
  C2 (amended). For every delete request on an existing post that has an image and
  that is answered with 200: the asset cleanup call for its image is made first
  (a failure of it is swallowed), and the record is deleted from the Record Store
  after it.
\<close>

theorem delete_cleans_asset_first:
  assumes "app e r w = Some (resp, w')" "meth r = DELETE" "resource r = PostsById i"
    "cast_object_id i = Some oid"
    "find (\<lambda>p. post_id p = oid) (docs w) = Some old" "image old = Some u" "u \<noteq> []"
    "status resp = 200"
  shows "effects w' = effects w
           @ (if destroy_fails e then [] else [AssetDestroy (public_id_of u)])
           @ [RecordDelete oid]
     \<and> blobs w' = (if destroy_fails e then blobs w else removeAll (public_id_of u) (blobs w))
     \<and> docs w' = remove_first oid (docs w)"
proof -
  let ?r0 = "r\<lparr>file_path := None, verrors := []\<rparr>"
  have t: "resource ?r0 \<noteq> AuthRoute" using assms(3) by simp
  from assms(1,8) obtain r1 w1 where
    h: "delete_post e i r1 w1 = (resp, w')"
    and w1: "w1 = w\<lparr>hits := hits w @ [(General, ip r)]\<rparr>"
    unfolding app_def
    using assms(2,3)
    by (auto simp: admission_Next[OF t] admission_Respond[OF t] posts_router_def route_iff
          run_chain_iff middleware_iff
          split: prod.splits flow.splits)
  have f1: "find (\<lambda>p. post_id p = oid) (docs w1) = Some old"
    using assms(5) w1 by simp
  from delete_post_ok[OF h assms(8,4) f1] show ?thesis
    using assms(6,7) w1
    by (auto simp: effects_cleaned blobs_cleaned truthy_def str_of_def)
qed

theorem delete_cleans_asset_first_witness:
  "app env0 delete0 world0
     = Some (\<lparr>status = 200, body = PostDeleted\<rparr>,
             world0\<lparr>docs := [], blobs := [], hits := [(General, ''10.0.0.1'')],
                    console := [''Deleted image: blog-uploads/blog_0_0''],
                    effects := [AssetDestroy ''blog-uploads/blog_0_0'', RecordDelete id0]\<rparr>)
   \<and> meth delete0 = DELETE \<and> resource delete0 = PostsById id0
   \<and> cast_object_id id0 = Some id0
   \<and> find (\<lambda>p. post_id p = id0) (docs world0) = Some post0
   \<and> image post0 = Some url0 \<and> url0 \<noteq> []
   \<and> public_id_of url0 = ''blog-uploads/blog_0_0'' \<and> \<not> destroy_fails env0"
proof -
  have run: "app env0 delete0 world0
     = Some (\<lparr>status = 200, body = PostDeleted\<rparr>,
             world0\<lparr>docs := [], blobs := [], hits := [(General, ''10.0.0.1'')],
                    console := [''Deleted image: blog-uploads/blog_0_0''],
                    effects := [AssetDestroy ''blog-uploads/blog_0_0'', RecordDelete id0]\<rparr>)"
    by (simp add: delete0_def run_defs)
  have m: "meth delete0 = DELETE" and t: "resource delete0 = PostsById id0"
    by (simp_all add: delete0_def req0_def)
  have c: "cast_object_id id0 = Some id0"
    by (simp add: run_defs)
  have f: "find (\<lambda>p. post_id p = id0) (docs world0) = Some post0"
    by (simp add: world0_def post0_def)
  have i: "image post0 = Some url0" and u: "url0 \<noteq> []"
    by (simp_all add: post0_def url0_def)
  have s: "status \<lparr>status = 200, body = PostDeleted\<rparr> = 200"
    by simp
  have pid: "public_id_of url0 = ''blog-uploads/blog_0_0''"
    by (simp add: public_id_of_def url0_def)
  from delete_cleans_asset_first[OF run m t c f i u s] run m t c f i u pid
  show ?thesis
    by (simp add: env0_sel)
qed

text \<open>
  When the record deletion fails, the blob is gone and the record that references it
  is still stored.
\<close>

theorem delete_cleans_before_record_counterexample:
  "app (env0\<lparr>writes_fail := True\<rparr>) delete0 world0
     = Some (\<lparr>status = 500, body = Failure ''Server error''\<rparr>,
             world0\<lparr>blobs := [], hits := [(General, ''10.0.0.1'')],
                    console := [''Deleted image: blog-uploads/blog_0_0'', ''Delete post error:''],
                    effects := [AssetDestroy ''blog-uploads/blog_0_0'']\<rparr>)
   \<and> docs world0 = [post0] \<and> image post0 = Some url0
   \<and> public_id_of url0 = ''blog-uploads/blog_0_0''"
  by (simp add: delete0_def run_defs)

section \<open>Validation failures and side effects\<close>

text \<open>
  C3 (amended). For every mutating request that is answered with a validation
  failure: the status is 400, the Post collection is unchanged and no blob is
  deleted. The fields are validated after the upload middleware, though: when a create
  or update request carries an image, that image has been uploaded to the Asset Store
  by then, and this upload is the request's only effect on the two stores.
\<close>

theorem validation_failure_effects:
  assumes "app e r w = Some (resp, w')" "body resp = ValidationFailed m" "meth r \<noteq> GET"
  shows "status resp = 400 \<and> docs w' = docs w
     \<and> blobs w' = blobs w @ (if image_part r \<noteq> None \<and> meth r \<noteq> DELETE
                               then [''blog-uploads/'' @ upload_name e] else [])
     \<and> effects w' = effects w @ (if image_part r \<noteq> None \<and> meth r \<noteq> DELETE
                                   then [AssetUpload (''blog-uploads/'' @ upload_name e)] else [])"
proof -
  let ?r0 = "r\<lparr>file_path := None, verrors := []\<rparr>"
  have t: "resource ?r0 \<noteq> AuthRoute"
    using assms(1,2) unfolding app_def admission_def
    by (cases "resource r")
       (auto simp: run_chain_iff middleware_iff split: prod.splits flow.splits)
  show ?thesis
    using assms unfolding app_def
    by (cases "meth r"; cases "resource r")
       (auto simp: admission_Next[OF t] admission_Respond[OF t] posts_router_def route_iff
          run_chain_iff middleware_iff not_found_def
          split: prod.splits flow.splits
          dest!: upload_single_Respond
          dest: update_post_body delete_post_body create_post_body)
qed


theorem validation_failure_effects_witness:
  "app env0 put_invalid_image world0
     = Some (\<lparr>status = 400,
              body = ValidationFailed
                [(''description'', [''Description must be at least 10 characters''])]\<rparr>,
             world0\<lparr>blobs := [''blog-uploads/blog_0_0'', ''blog-uploads/blog_1_2''],
                    hits := [(General, ''10.0.0.1''), (Upload, ''10.0.0.1'')],
                    effects := [AssetUpload ''blog-uploads/blog_1_2'']\<rparr>)
   \<and> meth put_invalid_image \<noteq> GET \<and> meth put_invalid_image \<noteq> DELETE
   \<and> image_part put_invalid_image \<noteq> None
   \<and> blobs world0 = [''blog-uploads/blog_0_0''] \<and> upload_name env0 = ''blog_1_2''"
proof -
  have run: "app env0 put_invalid_image world0
     = Some (\<lparr>status = 400,
              body = ValidationFailed
                [(''description'', [''Description must be at least 10 characters''])]\<rparr>,
             world0\<lparr>blobs := [''blog-uploads/blog_0_0'', ''blog-uploads/blog_1_2''],
                    hits := [(General, ''10.0.0.1''), (Upload, ''10.0.0.1'')],
                    effects := [AssetUpload ''blog-uploads/blog_1_2'']\<rparr>)"
    by (simp add: put_invalid_image_def run_defs)
  have b: "body \<lparr>status = 400,
              body = ValidationFailed
                [(''description'', [''Description must be at least 10 characters''])]\<rparr>
     = ValidationFailed [(''description'', [''Description must be at least 10 characters''])]"
    by simp
  have m: "meth put_invalid_image \<noteq> GET" "meth put_invalid_image \<noteq> DELETE"
    "image_part put_invalid_image \<noteq> None"
    by (simp_all add: put_invalid_image_def req0_def)
  from validation_failure_effects[OF run b m(1)] run m
  show ?thesis
    by (simp add: env0_sel world0_sel)
qed

text \<open>
  A create request with an image and a heading of two characters is rejected by the
  validation, and its image is in the Asset Store afterwards.
\<close>

theorem upload_precedes_validation_counterexample:
  "app env0 post_invalid_image world0
     = Some (\<lparr>status = 400,
              body = ValidationFailed
                [(''heading'', [''Heading must be between 3 and 200 characters''])]\<rparr>,
             world0\<lparr>blobs := [''blog-uploads/blog_0_0'', ''blog-uploads/blog_1_2''],
                    hits := [(General, ''10.0.0.1''), (Upload, ''10.0.0.1'')],
                    effects := [AssetUpload ''blog-uploads/blog_1_2'']\<rparr>)
   \<and> blobs world0 = [''blog-uploads/blog_0_0'']"
  by (simp add: post_invalid_image_def run_defs)

section \<open>Rate admission classes\<close>

text \<open>
  C4 (amended). Every request to /api/posts is answered, whatever its query and its
  body, and when it finds the database connected it is counted by the general
  limiter (100 per 15 minutes); a create (POST /) or update (PUT /:id) request that
  is authenticated and admitted by the general limiter is counted by the upload
  limiter (50 per 60 minutes) as well, whether or not it carries an image; every other
  request to /api/posts is counted by the general limiter only. A request to
  /api/auth is counted by the authentication limiter (20 per 15 minutes) at its mount
  point.
\<close>

theorem admission_classes:
  "(resource r \<noteq> AuthRoute \<longrightarrow>
      (\<exists>resp w'. app e r w = Some (resp, w')
         \<and> hits w' = hits w
           @ (if db_connects e
              then (General, ip r)
                   # (if uses_upload_limiter r \<and> authorized r
                         \<and> count_list (hits w) (General, ip r) < 100
                      then [(Upload, ip r)] else [])
              else [])))
   \<and> (resource r = AuthRoute \<longrightarrow>
        hits (snd (admission e r w))
          = hits w @ (if db_connects e then [(Authentication, ip r)] else []))
   \<and> max_hits apiLimiter = 100 \<and> windowMs apiLimiter = 15 * 60 * 1000
   \<and> max_hits authLimiter = 20 \<and> windowMs authLimiter = 15 * 60 * 1000
   \<and> max_hits uploadLimiter = 50 \<and> windowMs uploadLimiter = 60 * 60 * 1000"
proof -
  have posts: "hits w' = hits w
           @ (if db_connects e
              then (General, ip r)
                   # (if uses_upload_limiter r \<and> authorized r
                         \<and> count_list (hits w) (General, ip r) < 100
                      then [(Upload, ip r)] else [])
              else [])"
    if t0: "resource r \<noteq> AuthRoute" and run: "app e r w = Some (resp, w')" for resp w'
  proof -
    let ?r0 = "r\<lparr>file_path := None, verrors := []\<rparr>"
    have t: "resource ?r0 \<noteq> AuthRoute" using t0 by simp
    have u: "uses_upload_limiter ?r0 = uses_upload_limiter r"
      by (simp add: uses_upload_limiter_def)
    from run show ?thesis
      unfolding app_def using t0
      by (auto simp: admission_Next[OF t] admission_Respond[OF t] u
            split: prod.splits flow.splits resource.splits
            dest!: posts_router_hits)
  qed
  have auth_part: "hits (snd (admission e r w))
          = hits w @ (if db_connects e then [(Authentication, ip r)] else [])"
    if "resource r = AuthRoute"
    using that unfolding admission_def
    by (simp add: run_chain.simps connection_def rateLimit_def authLimiter_def Let_def)
  have answered: "\<exists>resp w'. app e r w = Some (resp, w')
         \<and> hits w' = hits w
           @ (if db_connects e
              then (General, ip r)
                   # (if uses_upload_limiter r \<and> authorized r
                         \<and> count_list (hits w) (General, ip r) < 100
                      then [(Upload, ip r)] else [])
              else [])"
    if t0: "resource r \<noteq> AuthRoute"
  proof -
    from app_total[OF t0] obtain resp w' where run: "app e r w = Some (resp, w')" by blast
    from posts[OF t0 run] run show ?thesis by blast
  qed
  show ?thesis
    using answered auth_part
    by (simp add: apiLimiter_def authLimiter_def uploadLimiter_def)
qed

theorem admission_classes_witness:
  "app env0 req0 world0
     = Some (\<lparr>status = 200,
              body = PostList [post0]
                       \<lparr>totalPages = 1, currentPage = 1, totalPosts = 1, limit = 10,
                        hasMore = False\<rparr>\<rparr>,
             world0\<lparr>hits := [(General, ''10.0.0.1'')]\<rparr>)
   \<and> app env0 (search_for ''('') world0
     = Some (\<lparr>status = 500, body = Failure ''Server error''\<rparr>,
             world0\<lparr>hits := [(General, ''10.0.0.1'')], console := [''Get posts error:'']\<rparr>)
   \<and> resource req0 \<noteq> AuthRoute \<and> \<not> uses_upload_limiter req0
   \<and> resource (search_for ''('') \<noteq> AuthRoute \<and> \<not> uses_upload_limiter (search_for ''('')
   \<and> hits (snd (admission env0 (req0\<lparr>resource := AuthRoute\<rparr>) world0))
       = [(Authentication, ''10.0.0.1'')]"
proof -
  have run: "app env0 req0 world0
     = Some (\<lparr>status = 200,
              body = PostList [post0]
                       \<lparr>totalPages = 1, currentPage = 1, totalPosts = 1, limit = 10,
                        hasMore = False\<rparr>\<rparr>,
             world0\<lparr>hits := [(General, ''10.0.0.1'')]\<rparr>)"
    by (simp add: run_defs)
  have refused: "app env0 (search_for ''('') world0
     = Some (\<lparr>status = 500, body = Failure ''Server error''\<rparr>,
             world0\<lparr>hits := [(General, ''10.0.0.1'')], console := [''Get posts error:'']\<rparr>)"
    by (simp add: search_for_def run_defs)
  have t: "resource req0 \<noteq> AuthRoute" and u: "\<not> uses_upload_limiter req0"
    and a: "resource (req0\<lparr>resource := AuthRoute\<rparr>) = AuthRoute"
    and ts: "resource (search_for ''('') \<noteq> AuthRoute"
    and us: "\<not> uses_upload_limiter (search_for ''('')"
    by (simp_all add: req0_def search_for_def uses_upload_limiter_def)
  from admission_classes[of req0 env0 world0]
    admission_classes[of "search_for ''(''" env0 world0]
    admission_classes[of "req0\<lparr>resource := AuthRoute\<rparr>" env0 world0] run refused t u a ts us
  show ?thesis
    by (simp add: env0_sel world0_sel req0_sel)
qed

text \<open>
  An authenticated create request without an image is counted by the general and by
  the upload limiter.
\<close>

theorem two_classes_counterexample:
  "map_option (hits \<circ> snd) (app env0 (req_create ''abc'' ''0123456789'') world0)
     = Some [(General, ''10.0.0.1''), (Upload, ''10.0.0.1'')]
   \<and> image_part (req_create ''abc'' ''0123456789'') = None"
  by (simp add: req_create_def run_defs)

section \<open>Best-effort asset deletion\<close>

text \<open>
  C9. \<open>deleteImage\<close> returns normally for every URL, environment and state: it never
  throws; it leaves the records alone and adds no blob; deleting an absent blob
  changes no blob; a failure of the destroy call leaves the blobs as they are and is
  logged. The response and the records of the delete and update handlers are the same
  whether or not the destroy call fails.
\<close>

theorem deleteImage_never_throws:
  "(\<exists>w'. deleteImage e imageUrl w = Inr w' \<and> docs w' = docs w \<and> hits w' = hits w
           \<and> (public_id_of imageUrl \<notin> set (blobs w) \<longrightarrow> blobs w' = blobs w)
           \<and> (destroy_fails e \<longrightarrow> blobs w' = blobs w \<and> effects w' = effects w)
           \<and> (destroy_fails e \<and> imageUrl \<noteq> [] \<longrightarrow>
                 console w' = console w @ [''Error deleting image: '' @ exn_message CloudError])
           \<and> set (blobs w') \<subseteq> set (blobs w))
   \<and> fst (delete_post (e\<lparr>destroy_fails := b\<rparr>) i r w) = fst (delete_post e i r w)
   \<and> docs (snd (delete_post (e\<lparr>destroy_fails := b\<rparr>) i r w)) = docs (snd (delete_post e i r w))
   \<and> fst (update_post (e\<lparr>destroy_fails := b\<rparr>) i r w) = fst (update_post e i r w)
   \<and> docs (snd (update_post (e\<lparr>destroy_fails := b\<rparr>) i r w)) = docs (snd (update_post e i r w))"
proof -
  have d: "\<exists>w'. deleteImage e imageUrl w = Inr w' \<and> docs w' = docs w \<and> hits w' = hits w
           \<and> (public_id_of imageUrl \<notin> set (blobs w) \<longrightarrow> blobs w' = blobs w)
           \<and> (destroy_fails e \<longrightarrow> blobs w' = blobs w \<and> effects w' = effects w)
           \<and> (destroy_fails e \<and> imageUrl \<noteq> [] \<longrightarrow>
                 console w' = console w @ [''Error deleting image: '' @ exn_message CloudError])
           \<and> set (blobs w') \<subseteq> set (blobs w)"
    by (auto simp: deleteImage_eq)
  have del: "fst (delete_post (e\<lparr>destroy_fails := b\<rparr>) i r w) = fst (delete_post e i r w)
     \<and> docs (snd (delete_post (e\<lparr>destroy_fails := b\<rparr>) i r w)) = docs (snd (delete_post e i r w))"
    unfolding delete_post_def findById_def findByIdAndDelete_def
    by (auto simp: cleanup_eq split: if_splits option.splits)
  have upd: "fst (update_post (e\<lparr>destroy_fails := b\<rparr>) i r w) = fst (update_post e i r w)
     \<and> docs (snd (update_post (e\<lparr>destroy_fails := b\<rparr>) i r w)) = docs (snd (update_post e i r w))"
    unfolding update_post_def findById_def findByIdAndUpdate_def
    by (auto simp: build_update_eq Let_def split: if_splits option.splits)
  show ?thesis using d del upd by blast
qed


theorem deleteImage_never_throws_witness:
  "deleteImage (env0\<lparr>destroy_fails := True\<rparr>) url0 world0
     = Inr (world0\<lparr>console := [''Error deleting image: asset store unavailable'']\<rparr>)
   \<and> deleteImage env0 ''https://res.cloudinary.com/demo/blog-uploads/gone.png'' world0
     = Inr (world0\<lparr>console := [''Deleted image: blog-uploads/gone''],
                   effects := [AssetDestroy ''blog-uploads/gone'']\<rparr>)
   \<and> public_id_of ''https://res.cloudinary.com/demo/blog-uploads/gone.png''
       \<notin> set (blobs world0)
   \<and> destroy_fails (env0\<lparr>destroy_fails := True\<rparr>) \<and> url0 \<noteq> []
   \<and> fst (delete_post (env0\<lparr>destroy_fails := True\<rparr>) id0 delete0 world0)
       = \<lparr>status = 200, body = PostDeleted\<rparr>"
proof -
  have a: "deleteImage (env0\<lparr>destroy_fails := True\<rparr>) url0 world0
     = Inr (world0\<lparr>console := [''Error deleting image: asset store unavailable'']\<rparr>)"
    by (simp add: deleteImage_eq url0_def world0_sel exn_message_def)
  have b: "deleteImage env0 ''https://res.cloudinary.com/demo/blog-uploads/gone.png'' world0
     = Inr (world0\<lparr>console := [''Deleted image: blog-uploads/gone''],
                   effects := [AssetDestroy ''blog-uploads/gone'']\<rparr>)"
    by (simp add: deleteImage_eq public_id_of_def world0_sel env0_sel)
  have c: "public_id_of ''https://res.cloudinary.com/demo/blog-uploads/gone.png''
       \<notin> set (blobs world0)"
    by (simp add: public_id_of_def world0_sel)
  have d: "fst (delete_post env0 id0 delete0 world0) = \<lparr>status = 200, body = PostDeleted\<rparr>"
    by (simp add: delete0_def run_defs)
  from deleteImage_never_throws[of "env0\<lparr>destroy_fails := True\<rparr>" url0 world0 True id0 delete0]
    deleteImage_never_throws[of env0 "''https://res.cloudinary.com/demo/blog-uploads/gone.png''"
      world0 True id0 delete0] a b c d
  show ?thesis
    by (simp add: url0_def)
qed

section \<open>The image field of a stored post\<close>

text \<open>
  C10. A post that a create request without an image creates is stored with the
  empty string as its image. And when every stored post has an image field before a
  request, every stored post has one after it: the field is never absent.
\<close>

theorem stored_image_is_string:
  assumes "app e r w = Some (resp, w')" "\<forall>q\<in>set (docs w). image q \<noteq> None"
  shows "(\<forall>q\<in>set (docs w'). image q \<noteq> None)
     \<and> (\<forall>p. body resp = PostCreated p \<longrightarrow>
            p \<in> set (docs w') \<and> meth r = POST \<and> resource r = PostsRoot
            \<and> (image_part r = None \<longrightarrow> image p = Some []))"
proof (cases "resource r = AuthRoute")
  case True
  then have "docs w' = docs w \<and> (\<exists>m. body resp = Failure m)"
    using assms(1) unfolding app_def admission_def
    by (auto simp: run_chain_iff middleware_iff split: prod.splits flow.splits)
  then show ?thesis using assms(2) by auto
next
  case False
  then have t: "resource (r\<lparr>file_path := None, verrors := []\<rparr>) \<noteq> AuthRoute"
    by simp
  show ?thesis
    using assms unfolding app_def
    by (cases "meth r"; cases "resource r")
       (auto simp: admission_Next[OF t] admission_Respond[OF t] posts_router_def route_iff
          run_chain_iff middleware_iff not_found_def
          split: prod.splits flow.splits
          dest!: upload_single_Respond create_post_result delete_post_docs
            get_post_docs get_posts_docs
          dest: update_post_images update_post_not_created)
qed

theorem stored_image_is_string_witness:
  "app env0 (req_create ''abc'' ''0123456789'') world0
     = Some (\<lparr>status = 201, body = PostCreated new_post\<rparr>,
             world0\<lparr>docs := [post0, new_post],
                    hits := [(General, ''10.0.0.1''), (Upload, ''10.0.0.1'')],
                    effects := [RecordInsert ''65a000000000000000000002'']\<rparr>)
   \<and> docs world0 = [post0] \<and> image post0 \<noteq> None
   \<and> image_part (req_create ''abc'' ''0123456789'') = None
   \<and> image new_post = Some []"
proof -
  have run: "app env0 (req_create ''abc'' ''0123456789'') world0
     = Some (\<lparr>status = 201, body = PostCreated new_post\<rparr>,
             world0\<lparr>docs := [post0, new_post],
                    hits := [(General, ''10.0.0.1''), (Upload, ''10.0.0.1'')],
                    effects := [RecordInsert ''65a000000000000000000002'']\<rparr>)"
    by (simp add: req_create_def new_post_def run_defs)
  have inv: "\<forall>q\<in>set (docs world0). image q \<noteq> None"
    by (simp add: world0_sel post0_sel)
  have p: "image_part (req_create ''abc'' ''0123456789'') = None"
    by (simp add: req_create_def req0_def)
  from stored_image_is_string[OF run inv] run p
  show ?thesis
    by (simp add: world0_sel post0_sel)
qed

end
